theory Spec2Isabelle
  imports Main "HOL-Library.Word" "HOL-Library.Monad_Syntax"
begin

unbundle bit_operations_syntax

section \<open>The platform: ArrayBuffer, DataView, TextDecoder\<close>

text \<open>
  An \<^verbatim>\<open>ArrayBuffer\<close> is a list of bytes. Every \<^verbatim>\<open>DataView\<close> of the two parsers
  covers its whole buffer (byte offset 0), so a view is modelled by the contents of its
  buffer. JavaScript numbers hold every value read here exactly (at most 32 bits, and sums
  of a few of them), so unsigned reads are \<open>nat\<close> and signed reads are \<open>int\<close>.
  A thrown exception is the value \<open>None\<close>: a \<^verbatim>\<open>DataView\<close> read past the end and a
  \<^verbatim>\<open>Uint8Array\<close> constructed past the end of its buffer throw \<^verbatim>\<open>RangeError\<close>.
  All reads of the source pass \<^verbatim>\<open>littleEndian = true\<close>.
\<close>

type_synonym byte = "8 word"

definition getUint8 :: "byte list \<Rightarrow> nat \<Rightarrow> nat option" where
  "getUint8 dv off = (if off < length dv then Some (unat (dv ! off)) else None)"

definition getUint16 :: "byte list \<Rightarrow> nat \<Rightarrow> nat option" where
  "getUint16 dv off =
     (if off + 2 \<le> length dv
      then Some (unat (dv ! off) + 256 * unat (dv ! (off + 1)))
      else None)"

definition getUint32 :: "byte list \<Rightarrow> nat \<Rightarrow> nat option" where
  "getUint32 dv off =
     (if off + 4 \<le> length dv
      then Some (unat (dv ! off) + 256 * unat (dv ! (off + 1))
                 + 65536 * unat (dv ! (off + 2)) + 16777216 * unat (dv ! (off + 3)))
      else None)"

definition getInt32 :: "byte list \<Rightarrow> nat \<Rightarrow> int option" where
  "getInt32 dv off =
     (case getUint32 dv off of
        None \<Rightarrow> None
      | Some u \<Rightarrow> Some (if u < 2147483648 then int u else int u - 4294967296))"

definition setUint8 :: "byte list \<Rightarrow> nat \<Rightarrow> nat \<Rightarrow> byte list option" where
  "setUint8 dv off v = (if off < length dv then Some (dv[off := of_nat v]) else None)"

text \<open>
  \<^verbatim>\<open>new Uint8Array(buffer, byteOffset, length)\<close>: the bytes of the view, or
  \<^verbatim>\<open>RangeError\<close> when \<open>byteOffset + length\<close> exceeds the buffer.
\<close>

definition Uint8Array :: "byte list \<Rightarrow> nat \<Rightarrow> nat \<Rightarrow> byte list option" where
  "Uint8Array buffer byteOffset len =
     (if byteOffset + len \<le> length buffer then Some (take len (drop byteOffset buffer)) else None)"

text \<open>
  A JavaScript string is modelled by the list of its code points.
  \<^verbatim>\<open>new TextDecoder('utf-8').decode(bytes)\<close> is the UTF-8 decoder of the Encoding
  standard: it never throws, replaces every ill-formed sequence by U+FFFD, and drops one
  leading byte order mark. \<open>U cp seen needed lo hi\<close> is the decoder's state: the code
  point under construction, the continuation bytes seen and needed, and the bounds of the
  next continuation byte.
\<close>

type_synonym jsstring = "nat list"

datatype ustate = U (u_cp: nat) (u_seen: nat) (u_needed: nat) (u_lower: nat) (u_upper: nat)

definition u_init :: ustate where
  "u_init = U 0 0 0 128 191"

text \<open>A byte met when no continuation byte is awaited: the output and the next state.\<close>

definition utf8_lead :: "nat \<Rightarrow> nat list \<times> ustate" where
  "utf8_lead b =
     (if b \<le> 127 then ([b], u_init)
      else if 194 \<le> b \<and> b \<le> 223 then ([], U (b mod 32) 0 1 128 191)
      else if 224 \<le> b \<and> b \<le> 239
        then ([], U (b mod 16) 0 2 (if b = 224 then 160 else 128) (if b = 237 then 159 else 191))
      else if 240 \<le> b \<and> b \<le> 244
        then ([], U (b mod 8) 0 3 (if b = 240 then 144 else 128) (if b = 244 then 143 else 191))
      else ([65533], u_init))"

fun utf8_decode :: "ustate \<Rightarrow> nat list \<Rightarrow> nat list" where
  "utf8_decode s [] = (if u_needed s \<noteq> 0 then [65533] else [])"
| "utf8_decode s (b # bs) =
     (if u_needed s = 0
      then (case utf8_lead b of (out, s') \<Rightarrow> out @ utf8_decode s' bs)
      else if b < u_lower s \<or> u_upper s < b
        then 65533 # (case utf8_lead b of (out, s') \<Rightarrow> out @ utf8_decode s' bs)
      else (let cp = u_cp s * 64 + b mod 64 in
            if u_seen s + 1 \<noteq> u_needed s
            then utf8_decode (U cp (u_seen s + 1) (u_needed s) 128 191) bs
            else cp # utf8_decode u_init bs))"

definition strip_bom :: "nat list \<Rightarrow> nat list" where
  "strip_bom cps = (case cps of [] \<Rightarrow> [] | c # cs \<Rightarrow> if c = 65279 then cs else c # cs)"

definition TextDecoder_decode :: "byte list \<Rightarrow> jsstring" where
  "TextDecoder_decode bytes = strip_bom (utf8_decode u_init (map unat bytes))"

text \<open>
  The two lengths a string has: the number of UTF-16 code units (what \<^verbatim>\<open>.length\<close>
  reports) and the number of bytes of its UTF-8 encoding.
\<close>

definition utf16_length :: "jsstring \<Rightarrow> nat" where
  "utf16_length s = sum_list (map (\<lambda>c. if c > 65535 then 2 else 1) s)"

definition utf8_length :: "jsstring \<Rightarrow> nat" where
  "utf8_length s =
     sum_list (map (\<lambda>c. if c < 128 then 1 else if c < 2048 then 2 else if c < 65536 then 3 else 4) s)"

text \<open>
  \<^verbatim>\<open>const XY_SCALE = 1\<close> in both files. Every coordinate is divided by it; the
  division of an integer by 1 is exact, which is all \<open>div\<close> is used for here.
\<close>

definition XY_SCALE :: nat where
  "XY_SCALE = 1"

section \<open>part\_data\_parser.js: PartDataParser\<close>

text \<open>
  The fields of \<^verbatim>\<open>this\<close>. The reused \<^verbatim>\<open>textDecoder\<close> keeps no state between
  calls of \<^verbatim>\<open>decode\<close>. The module variable \<^verbatim>\<open>isThruHole_part\<close> is written by the
  pin parser and read nowhere; it is left out.
\<close>

record PartDataParser =
  p_dataView :: "byte list"
  p_offset :: nat
  cur_block_size :: nat
  pin_block_size :: nat

definition p_init :: "byte list \<Rightarrow> PartDataParser" where
  "p_init arrayBuffer =
     \<lparr>p_dataView = arrayBuffer, p_offset = 0, cur_block_size = 0, pin_block_size = 0\<rparr>"

definition p_readString :: "PartDataParser \<Rightarrow> nat \<Rightarrow> (jsstring \<times> PartDataParser) option" where
  "p_readString this len =
     (if len = 0 then Some ([], this)
      else do {
        stringBytes \<leftarrow> Uint8Array (p_dataView this) (p_offset this) len;
        let this = this\<lparr>p_offset := p_offset this + len\<rparr>;
        Some (TextDecoder_decode stringBytes, this)
      })"

record header =
  part_size :: nat
  part_x :: nat
  part_y :: nat
  part_rotation :: nat
  visibility :: nat
  part_group_name_size :: nat
  part_group_name :: jsstring

definition parseHeader :: "PartDataParser \<Rightarrow> (header \<times> PartDataParser) option" where
  "parseHeader this = do {
     let dv = p_dataView this;
     let off = p_offset this;
     partSize \<leftarrow> getUint32 dv off;
     let off = off + 8;
     partX \<leftarrow> getUint32 dv off; let off = off + 4;
     partY \<leftarrow> getUint32 dv off; let off = off + 4;
     partRotation \<leftarrow> getUint32 dv off; let off = off + 4;
     vis \<leftarrow> getUint8 dv off; let off = off + 2;
     nameSize \<leftarrow> getUint32 dv off; let off = off + 4;
     let this = this\<lparr>p_offset := off\<rparr>;
     (groupName, this) \<leftarrow> (if nameSize > 0 then p_readString this nameSize else Some ([], this));
     Some (\<lparr>part_size = partSize, part_x = partX, part_y = partY,
            part_rotation = partRotation, visibility = vis,
            part_group_name_size = nameSize, part_group_name = groupName\<rparr>, this)
   }"

record sub_type_01 =
  s01_block_size :: nat
  s01_layer :: nat
  s01_x1 :: nat
  s01_y1 :: nat
  s01_radius :: nat
  s01_angle_start :: nat
  s01_angle_end :: nat
  s01_scale :: nat
  s01_unknown_arc :: nat

record sub_type_05 =
  s05_block_size :: nat
  s05_layer :: nat
  s05_x1 :: nat
  s05_y1 :: nat
  s05_x2 :: nat
  s05_y2 :: nat
  s05_scale :: nat

record sub_type_06 =
  s06_block_size :: nat
  s06_layer :: nat
  s06_x :: nat
  s06_y :: nat
  s06_font_size :: nat
  s06_font_scale :: nat
  s06_font_rotation :: nat
  s06_visibility :: nat
  s06_label_size :: nat
  s06_label :: jsstring

record pin =
  pin_un1 :: nat
  pin_x :: nat
  pin_y :: nat
  inner_diameter :: nat
  pin_rotation :: nat
  pin_name_size :: nat
  pin_name :: jsstring
  pin_height :: nat
  pin_width :: nat
  pin_shape :: nat
  pin_net_index :: nat
  isThruHole_pin :: bool

record sub_type_09 =
  s09_block_size :: nat
  pins :: "pin list"

datatype sub_block =
  Sub01 sub_type_01
| Sub05 sub_type_05
| Sub06 sub_type_06
| Sub09 sub_type_09

definition parseSubType01 :: "PartDataParser \<Rightarrow> (sub_block \<times> PartDataParser) option" where
  "parseSubType01 this = do {
     let dv = p_dataView this;
     let off = p_offset this;
     blockSize \<leftarrow> getUint32 dv off; let off = off + 4;
     layer \<leftarrow> getUint32 dv off; let off = off + 4;
     x1 \<leftarrow> getUint32 dv off; let off = off + 4;
     y1 \<leftarrow> getUint32 dv off; let off = off + 4;
     radius \<leftarrow> getUint32 dv off; let off = off + 4;
     angleStart \<leftarrow> getUint32 dv off; let off = off + 4;
     angleEnd \<leftarrow> getUint32 dv off; let off = off + 4;
     scale \<leftarrow> getUint32 dv off; let off = off + 4;
     unknownArc \<leftarrow> getUint32 dv off; let off = off + 4;
     let this = this\<lparr>p_offset := off\<rparr>;
     Some (Sub01 \<lparr>s01_block_size = blockSize, s01_layer = layer,
                   s01_x1 = x1 div XY_SCALE, s01_y1 = y1 div XY_SCALE,
                   s01_radius = radius div XY_SCALE,
                   s01_angle_start = angleStart div XY_SCALE,
                   s01_angle_end = angleEnd div XY_SCALE,
                   s01_scale = scale div XY_SCALE,
                   s01_unknown_arc = unknownArc div XY_SCALE\<rparr>, this)
   }"

definition parseSubType05 :: "PartDataParser \<Rightarrow> (sub_block \<times> PartDataParser) option" where
  "parseSubType05 this = do {
     let dv = p_dataView this;
     let off = p_offset this;
     blockSize \<leftarrow> getUint32 dv off; let off = off + 4;
     layer \<leftarrow> getUint32 dv off; let off = off + 4;
     x1 \<leftarrow> getUint32 dv off; let off = off + 4;
     y1 \<leftarrow> getUint32 dv off; let off = off + 4;
     x2 \<leftarrow> getUint32 dv off; let off = off + 4;
     y2 \<leftarrow> getUint32 dv off; let off = off + 4;
     scale \<leftarrow> getUint32 dv off; let off = off + 4;
     let this = this\<lparr>p_offset := off + 4\<rparr>;
     Some (Sub05 \<lparr>s05_block_size = blockSize, s05_layer = layer,
                   s05_x1 = x1 div XY_SCALE, s05_y1 = y1 div XY_SCALE,
                   s05_x2 = x2 div XY_SCALE, s05_y2 = y2 div XY_SCALE,
                   s05_scale = scale div XY_SCALE\<rparr>, this)
   }"

definition parseSubType06 :: "PartDataParser \<Rightarrow> (sub_block \<times> PartDataParser) option" where
  "parseSubType06 this = do {
     let dv = p_dataView this;
     let off = p_offset this;
     blockSize \<leftarrow> getUint32 dv off; let off = off + 4;
     layer \<leftarrow> getUint32 dv off; let off = off + 4;
     x \<leftarrow> getUint32 dv off; let off = off + 4;
     y \<leftarrow> getUint32 dv off; let off = off + 4;
     fontSize \<leftarrow> getUint32 dv off; let off = off + 4;
     fontScale \<leftarrow> getUint32 dv off; let off = off + 4;
     fontRotation \<leftarrow> getUint32 dv off; let off = off + 4;
     vis \<leftarrow> getUint8 dv off; let off = off + 2;
     labelSize \<leftarrow> getUint32 dv off; let off = off + 4;
     let this = this\<lparr>p_offset := off\<rparr>;
     (label, this) \<leftarrow> (if labelSize > 0 then p_readString this labelSize else Some ([], this));
     Some (Sub06 \<lparr>s06_block_size = blockSize, s06_layer = layer,
                   s06_x = x div XY_SCALE, s06_y = y div XY_SCALE,
                   s06_font_size = fontSize div XY_SCALE,
                   s06_font_scale = fontScale div XY_SCALE,
                   s06_font_rotation = fontRotation div XY_SCALE,
                   s06_visibility = vis, s06_label_size = labelSize,
                   s06_label = label\<rparr>, this)
   }"

text \<open>
  The body of the \<^verbatim>\<open>while\<close> loop of \<^verbatim>\<open>parseSubType09\<close>: one pin. The reads go
  through \<^verbatim>\<open>dv\<close>, the view taken at the start of \<^verbatim>\<open>parseSubType09\<close>, which is the
  view \<^verbatim>\<open>this.dataView\<close> still holds.
\<close>

definition read_pin :: "PartDataParser \<Rightarrow> (pin \<times> PartDataParser) option" where
  "read_pin this = do {
     let dv = p_dataView this;
     let off = p_offset this;
     un1 \<leftarrow> getUint32 dv off; let off = off + 4;
     x \<leftarrow> getUint32 dv off; let off = off + 4;
     y \<leftarrow> getUint32 dv off; let off = off + 4;
     innerDiameterRaw \<leftarrow> getUint32 dv off; let off = off + 4;
     let innerDiameter = innerDiameterRaw div XY_SCALE;
     let isThruHole = (innerDiameter \<noteq> 0);
     pinRotation \<leftarrow> getUint32 dv off; let off = off + 4;
     pinNameSize \<leftarrow> getUint32 dv off; let off = off + 4;
     let this = this\<lparr>p_offset := off\<rparr>;
     (pinName, this) \<leftarrow> (if pinNameSize > 0 then p_readString this pinNameSize else Some ([], this));
     let off = p_offset this;
     width \<leftarrow> getUint32 dv off; let off = off + 4;
     height \<leftarrow> getUint32 dv off; let off = off + 4;
     shape \<leftarrow> getUint8 dv off; let off = off + 24;
     netIndex \<leftarrow> getUint32 dv off; let off = off + 4;
     let this = this\<lparr>p_offset := off + 13\<rparr>;
     Some (\<lparr>pin_un1 = un1, pin_x = x div XY_SCALE, pin_y = y div XY_SCALE,
            inner_diameter = innerDiameter,
            pin_rotation = pinRotation div XY_SCALE,
            pin_name_size = pinNameSize, pin_name = pinName,
            pin_height = height div XY_SCALE, pin_width = width div XY_SCALE,
            pin_shape = shape, pin_net_index = netIndex,
            isThruHole_pin = isThruHole\<rparr>, this)
   }"

lemma p_readString_frame:
  assumes "p_readString this n = Some (s, this')"
  shows "p_offset this' = p_offset this + n \<and> p_dataView this' = p_dataView this
         \<and> cur_block_size this' = cur_block_size this \<and> pin_block_size this' = pin_block_size this"
  using assms by (auto simp: p_readString_def Let_def split: if_splits bind_splits)

lemma read_pin_frame:
  assumes "read_pin this = Some (p, this')"
  shows "p_offset this + 73 \<le> p_offset this' \<and> p_dataView this' = p_dataView this
         \<and> cur_block_size this' = cur_block_size this \<and> pin_block_size this' = pin_block_size this"
  using assms
  by (auto simp: read_pin_def Let_def split: if_splits bind_splits dest!: p_readString_frame)

function pins_loop :: "PartDataParser \<Rightarrow> nat \<Rightarrow> pin list \<Rightarrow> (pin list \<times> PartDataParser) option" where
  "pins_loop this blockSize acc =
     (if p_offset this + blockSize \<le> cur_block_size this
      then (case read_pin this of
              None \<Rightarrow> None
            | Some (p, this') \<Rightarrow> pins_loop this' blockSize (acc @ [p]))
      else Some (acc, this))"
  by pat_completeness auto
termination
proof (relation "measure (\<lambda>(this, blockSize, acc). Suc (cur_block_size this) - (p_offset this + blockSize))")
  show "wf (measure (\<lambda>(this, blockSize, acc). Suc (cur_block_size this) - (p_offset this + blockSize)))"
    by simp
next
  fix this :: PartDataParser and blockSize :: nat and acc :: "pin list" and x2 x y
  assume guard: "p_offset this + blockSize \<le> cur_block_size this"
    and r: "read_pin this = Some x2" and x2: "(x, y) = x2"
  from r x2 have "read_pin this = Some (x, y)" by simp
  from read_pin_frame [OF this] guard
  show "((y, blockSize, acc @ [x]), (this, blockSize, acc))
        \<in> measure (\<lambda>(this, blockSize, acc). Suc (cur_block_size this) - (p_offset this + blockSize))"
    by (simp del: add_Suc_right) arith
qed

declare pins_loop.simps [simp del]

definition parseSubType09 :: "PartDataParser \<Rightarrow> (sub_block \<times> PartDataParser) option" where
  "parseSubType09 this = do {
     blockSize \<leftarrow> getUint32 (p_dataView this) (p_offset this);
     let this = this\<lparr>p_offset := p_offset this + 4\<rparr>;
     (ps, this) \<leftarrow> pins_loop this blockSize [];
     Some (Sub09 \<lparr>s09_block_size = blockSize, pins = ps\<rparr>, this)
   }"

text \<open>
  The dispatch table \<^verbatim>\<open>subBlockHandlers\<close> of \<^verbatim>\<open>parse\<close>: a tag with no entry has no
  handler.
\<close>

definition subBlockHandlers ::
  "nat \<Rightarrow> (PartDataParser \<Rightarrow> (sub_block \<times> PartDataParser) option) option" where
  "subBlockHandlers tag =
     (if tag = 1 then Some parseSubType01
      else if tag = 5 then Some parseSubType05
      else if tag = 6 then Some parseSubType06
      else if tag = 9 then Some parseSubType09
      else None)"

lemma pins_loop_frame:
  "pins_loop this n acc = Some (ps, this') \<Longrightarrow>
     p_offset this \<le> p_offset this' \<and> p_dataView this' = p_dataView this
     \<and> cur_block_size this' = cur_block_size this \<and> pin_block_size this' = pin_block_size this"
proof (induction this n acc rule: pins_loop.induct)
  case (1 this blockSize acc)
  show ?case
  proof (cases "p_offset this + blockSize \<le> cur_block_size this")
    case False
    with "1.prems" show ?thesis by (simp add: pins_loop.simps)
  next
    case True
    with "1.prems" obtain p this1 where r: "read_pin this = Some (p, this1)"
      and l: "pins_loop this1 blockSize (acc @ [p]) = Some (ps, this')"
      by (auto simp: pins_loop.simps [of this] split: option.splits)
    from "1.IH" [OF True r refl l] read_pin_frame [OF r] show ?thesis by simp
  qed
qed

lemma subBlockHandlers_frame:
  assumes "subBlockHandlers tag = Some handler" and "handler this = Some (sb, this')"
  shows "p_offset this \<le> p_offset this' \<and> p_dataView this' = p_dataView this
         \<and> cur_block_size this' = cur_block_size this \<and> pin_block_size this' = pin_block_size this"
proof -
  consider "handler = parseSubType01" | "handler = parseSubType05"
    | "handler = parseSubType06" | "handler = parseSubType09"
    using assms(1) by (auto simp: subBlockHandlers_def split: if_splits)
  then show ?thesis
  proof cases
    case 1
    with assms(2) show ?thesis
      by (auto simp: parseSubType01_def Let_def split: bind_splits)
  next
    case 2
    with assms(2) show ?thesis
      by (auto simp: parseSubType05_def Let_def split: bind_splits)
  next
    case 3
    with assms(2) show ?thesis
      by (auto simp: parseSubType06_def Let_def split: bind_splits if_splits
               dest!: p_readString_frame)
  next
    case 4
    with assms(2) show ?thesis
      by (auto simp: parseSubType09_def Let_def split: bind_splits dest!: pins_loop_frame)
  qed
qed

text \<open>
  The \<^verbatim>\<open>while\<close> loop of \<^verbatim>\<open>PartDataParser.parse\<close>. Every handler returns an object,
  so \<^verbatim>\<open>if (subBlock)\<close> always holds and the sub-block is pushed.
\<close>

function sub_blocks_loop ::
  "PartDataParser \<Rightarrow> sub_block list \<Rightarrow> (sub_block list \<times> PartDataParser) option" where
  "sub_blocks_loop this acc =
     (if p_offset this + pin_block_size this < length (p_dataView this)
      then
        if p_offset this \<ge> length (p_dataView this) then Some (acc, this)
        else (case getUint8 (p_dataView this) (p_offset this) of
                None \<Rightarrow> None
              | Some subTypeIdentifier \<Rightarrow>
                  (case subBlockHandlers subTypeIdentifier of
                     Some handler \<Rightarrow>
                       (case handler (this\<lparr>p_offset := p_offset this + 1\<rparr>) of
                          None \<Rightarrow> None
                        | Some (subBlock, this') \<Rightarrow> sub_blocks_loop this' (acc @ [subBlock]))
                   | None \<Rightarrow> Some (acc, this\<lparr>p_offset := p_offset this + 1\<rparr>)))
      else Some (acc, this))"
  by pat_completeness auto
termination
proof (relation "measure (\<lambda>(this, acc). length (p_dataView this) - p_offset this)")
  show "wf (measure (\<lambda>(this, acc). length (p_dataView this) - p_offset this))"
    by simp
next
  fix this :: PartDataParser and acc :: "sub_block list" and tag handler x2 x y
  assume guard: "\<not> length (p_dataView this) \<le> p_offset this"
    and h: "subBlockHandlers tag = Some handler"
    and r: "handler (this\<lparr>p_offset := p_offset this + 1\<rparr>) = Some x2" and x2: "(x, y) = x2"
  from r x2 have "handler (this\<lparr>p_offset := p_offset this + 1\<rparr>) = Some (x, y)" by simp
  from subBlockHandlers_frame [OF h this] guard
  show "((y, acc @ [x]), (this, acc)) \<in> measure (\<lambda>(this, acc). length (p_dataView this) - p_offset this)"
    by simp arith
qed

declare sub_blocks_loop.simps [simp del]

record part_data =
  pd_header :: header
  sub_blocks :: "sub_block list"

definition PartDataParser_parse :: "byte list \<Rightarrow> nat \<Rightarrow> part_data option" where
  "PartDataParser_parse arrayBuffer t07blockSize = do {
     let this = (p_init arrayBuffer)\<lparr>cur_block_size := t07blockSize\<rparr>;
     (hdr, this) \<leftarrow> parseHeader this;
     let partSize = part_size hdr;
     let trimmedBuffer = take (4 + partSize) arrayBuffer;
     let this = this\<lparr>p_dataView := trimmedBuffer\<rparr>;
     (subs, this) \<leftarrow> sub_blocks_loop this [];
     Some \<lparr>pd_header = hdr, sub_blocks = subs\<rparr>
   }"

section \<open>raw\_parser.js: RawPCBParser\<close>

text \<open>
  The fields of \<^verbatim>\<open>this\<close>. The view aliases the caller's \<^verbatim>\<open>ArrayBuffer\<close>
  (\<^verbatim>\<open>new DataView(arrayBuffer)\<close> copies nothing), so \<open>dataView\<close> is also the contents of
  the caller's buffer. The parser is taken as constructed by default, with no progress
  callback, so \<^verbatim>\<open>reportProgress\<close> does nothing; the \<^verbatim>\<open>console\<close> output is not modelled.

  \<^verbatim>\<open>decryptWithDES\<close> calls the CryptoJS library, which is not part of the repository: it
  is a parameter, a function from the ciphertext to the plaintext, or \<open>None\<close> where the call
  throws.
\<close>

record RawPCBParser =
  dataView :: "byte list"
  offset :: nat
  mainDataBlocksSize :: nat

type_synonym decryptor = "byte list \<Rightarrow> byte list option"

text \<open>\<^verbatim>\<open>new RawPCBParser()\<close>, and the decryptor of a page that did not load CryptoJS
  (\<^verbatim>\<open>typeof CryptoJS === 'undefined'\<close>: every call throws).\<close>

definition new_RawPCBParser :: RawPCBParser where
  "new_RawPCBParser = \<lparr>dataView = [], offset = 0, mainDataBlocksSize = 0\<rparr>"

definition CryptoJS_undefined :: decryptor where
  "CryptoJS_undefined encryptedData = None"

record arc_block =
  arc_layer :: nat
  arc_x1 :: nat
  arc_y1 :: nat
  arc_r :: int
  arc_angle_start :: int
  arc_angle_end :: int
  arc_scale :: int
  arc_net_index :: int

record via_block =
  via_x :: int
  via_y :: int
  via_outer_radius :: int
  via_inner_radius :: int
  via_layer_a_index :: nat
  via_layer_b_index :: nat
  via_net_index :: nat
  via_text :: jsstring

record segment_block =
  seg_layer :: nat
  seg_x1 :: int
  seg_y1 :: int
  seg_x2 :: int
  seg_y2 :: int
  seg_scale :: int
  seg_net_index :: nat

record text_block =
  text_unknown_1 :: nat
  text_pos_x :: nat
  text_pos_y :: nat
  text_text_size :: nat
  text_divider :: nat
  text_empty :: nat
  text_one :: nat
  text_text_length :: nat
  text_text :: jsstring

text \<open>\<open>parsed_data = None\<close> is \<^verbatim>\<open>parsed_data: null\<close>: the part parser threw.\<close>

record data_block =
  data_block_size :: nat
  encrypted_data :: "byte list"
  decrypted_data :: "byte list"
  parsed_data :: "part_data option"

datatype block =
  ARC arc_block
| VIA via_block
| SEGMENT segment_block
| TEXT text_block
| DATA data_block

record parse_result =
  main_data_block :: "block list"

definition readString :: "RawPCBParser \<Rightarrow> nat \<Rightarrow> (jsstring \<times> RawPCBParser) option" where
  "readString this len =
     (if len = 0 then Some ([], this)
      else do {
        stringBytes \<leftarrow> Uint8Array (dataView this) (offset this) len;
        let this = this\<lparr>offset := offset this + len\<rparr>;
        Some (TextDecoder_decode stringBytes, this)
      })"

definition parseType01 :: "RawPCBParser \<Rightarrow> (block option \<times> RawPCBParser) option" where
  "parseType01 this = do {
     let dv = dataView this;
     let off = offset this;
     blockSize \<leftarrow> getUint32 dv off; let off = off + 4;
     layer \<leftarrow> getUint32 dv off; let off = off + 4;
     x1 \<leftarrow> getUint32 dv off; let off = off + 4;
     y1 \<leftarrow> getUint32 dv off; let off = off + 4;
     r \<leftarrow> getInt32 dv off; let off = off + 4;
     angleStart \<leftarrow> getInt32 dv off; let off = off + 4;
     angleEnd \<leftarrow> getInt32 dv off; let off = off + 4;
     scale \<leftarrow> getInt32 dv off; let off = off + 4;
     netIndex \<leftarrow> getInt32 dv off; let off = off + 4;
     let this = this\<lparr>offset := off\<rparr>;
     Some (Some (ARC \<lparr>arc_layer = layer,
                       arc_x1 = x1 div XY_SCALE, arc_y1 = y1 div XY_SCALE,
                       arc_r = r div int XY_SCALE,
                       arc_angle_start = angleStart div int XY_SCALE,
                       arc_angle_end = angleEnd div int XY_SCALE,
                       arc_scale = scale div int XY_SCALE,
                       arc_net_index = netIndex\<rparr>), this)
   }"

definition parseType02 :: "RawPCBParser \<Rightarrow> (block option \<times> RawPCBParser) option" where
  "parseType02 this = do {
     let dv = dataView this;
     let off = offset this;
     blockSize \<leftarrow> getUint32 dv off; let off = off + 4;
     x \<leftarrow> getInt32 dv off; let off = off + 4;
     y \<leftarrow> getInt32 dv off; let off = off + 4;
     outerRadius \<leftarrow> getInt32 dv off; let off = off + 4;
     innerRadius \<leftarrow> getInt32 dv off; let off = off + 4;
     layerAIndex \<leftarrow> getUint32 dv off; let off = off + 4;
     layerBIndex \<leftarrow> getUint32 dv off; let off = off + 4;
     netIndex \<leftarrow> getUint32 dv off; let off = off + 4;
     viaTextLength \<leftarrow> getUint32 dv off; let off = off + 4;
     let this = this\<lparr>offset := off\<rparr>;
     (viaText, this) \<leftarrow> readString this viaTextLength;
     Some (Some (VIA \<lparr>via_x = x div int XY_SCALE, via_y = y div int XY_SCALE,
                       via_outer_radius = outerRadius div int XY_SCALE,
                       via_inner_radius = innerRadius div int XY_SCALE,
                       via_layer_a_index = layerAIndex,
                       via_layer_b_index = layerBIndex,
                       via_net_index = netIndex, via_text = viaText\<rparr>), this)
   }"

definition parseType03 :: "RawPCBParser \<Rightarrow> (block option \<times> RawPCBParser) option" where
  "parseType03 this = do {
     blockSize \<leftarrow> getUint32 (dataView this) (offset this);
     Some (None, this\<lparr>offset := offset this + (4 + blockSize)\<rparr>)
   }"

definition parseType05 :: "RawPCBParser \<Rightarrow> (block option \<times> RawPCBParser) option" where
  "parseType05 this = do {
     let dv = dataView this;
     let off = offset this;
     blockSize \<leftarrow> getUint32 dv off; let off = off + 4;
     layer \<leftarrow> getUint32 dv off; let off = off + 4;
     x1 \<leftarrow> getInt32 dv off; let off = off + 4;
     y1 \<leftarrow> getInt32 dv off; let off = off + 4;
     x2 \<leftarrow> getInt32 dv off; let off = off + 4;
     y2 \<leftarrow> getInt32 dv off; let off = off + 4;
     scale \<leftarrow> getInt32 dv off; let off = off + 4;
     traceNetIndex \<leftarrow> getUint32 dv off; let off = off + 4;
     let this = this\<lparr>offset := off\<rparr>;
     Some (Some (SEGMENT \<lparr>seg_layer = layer,
                           seg_x1 = x1 div int XY_SCALE, seg_y1 = y1 div int XY_SCALE,
                           seg_x2 = x2 div int XY_SCALE, seg_y2 = y2 div int XY_SCALE,
                           seg_scale = scale div int XY_SCALE,
                           seg_net_index = traceNetIndex\<rparr>), this)
   }"

definition parseType06 :: "RawPCBParser \<Rightarrow> (block option \<times> RawPCBParser) option" where
  "parseType06 this = do {
     let dv = dataView this;
     let off = offset this;
     blockSize \<leftarrow> getUint32 dv off; let off = off + 4;
     unknown1 \<leftarrow> getUint32 dv off; let off = off + 4;
     posX \<leftarrow> getUint32 dv off; let off = off + 4;
     posY \<leftarrow> getUint32 dv off; let off = off + 4;
     textSize \<leftarrow> getUint32 dv off; let off = off + 4;
     divider \<leftarrow> getUint32 dv off; let off = off + 4;
     empty \<leftarrow> getUint32 dv off; let off = off + 4;
     one \<leftarrow> getUint16 dv off; let off = off + 2;
     textLength \<leftarrow> getUint32 dv off; let off = off + 4;
     let this = this\<lparr>offset := off\<rparr>;
     (text, this) \<leftarrow> readString this textLength;
     Some (Some (TEXT \<lparr>text_unknown_1 = unknown1,
                        text_pos_x = posX div XY_SCALE, text_pos_y = posY div XY_SCALE,
                        text_text_size = textSize div XY_SCALE,
                        text_divider = divider, text_empty = empty, text_one = one,
                        text_text_length = textLength, text_text = text\<rparr>), this)
   }"

text \<open>
  \<^verbatim>\<open>parseType07\<close>. The two \<^verbatim>\<open>try\<close> blocks catch whatever the decryptor and the part
  parser throw. When the decryptor throws, \<^verbatim>\<open>decryptedData\<close> is the view
  \<^verbatim>\<open>encryptedData\<close> itself, and \<^verbatim>\<open>decryptedData.buffer\<close>, which the part parser is
  given, is the buffer under that view: the whole file. A decrypted plaintext is a fresh
  array, whose buffer holds the plaintext and nothing else.
\<close>

definition parseType07 ::
  "decryptor \<Rightarrow> RawPCBParser \<Rightarrow> (block option \<times> RawPCBParser) option" where
  "parseType07 decryptWithDES this = do {
     blockSize \<leftarrow> getUint32 (dataView this) (offset this);
     let this = this\<lparr>offset := offset this + 4\<rparr>;
     encryptedData \<leftarrow> Uint8Array (dataView this) (offset this) blockSize;
     let this = this\<lparr>offset := offset this + blockSize\<rparr>;
     let (decryptedData, decryptedBuffer) =
       (case decryptWithDES encryptedData of
          Some plaintext \<Rightarrow> (plaintext, plaintext)
        | None \<Rightarrow> (encryptedData, dataView this));
     let parsedData = PartDataParser_parse decryptedBuffer blockSize;
     Some (Some (DATA \<lparr>data_block_size = blockSize,
                        encrypted_data = encryptedData,
                        decrypted_data = decryptedData,
                        parsed_data = parsedData\<rparr>), this)
   }"

definition parseType09 :: "RawPCBParser \<Rightarrow> (block option \<times> RawPCBParser) option" where
  "parseType09 this = do {
     blockSize \<leftarrow> getUint32 (dataView this) (offset this);
     Some (None, this\<lparr>offset := offset this + (4 + blockSize)\<rparr>)
   }"

text \<open>The dispatch table \<^verbatim>\<open>blockHandlers\<close> of \<^verbatim>\<open>parseMainDataBlocks\<close>.\<close>

definition blockHandlers ::
  "decryptor \<Rightarrow> nat \<Rightarrow> (RawPCBParser \<Rightarrow> (block option \<times> RawPCBParser) option) option" where
  "blockHandlers decryptWithDES blockType =
     (if blockType = 1 then Some parseType01
      else if blockType = 2 then Some parseType02
      else if blockType = 3 then Some parseType03
      else if blockType = 4 then Some (\<lambda>this. Some (None, this\<lparr>offset := offset this + 1\<rparr>))
      else if blockType = 5 then Some parseType05
      else if blockType = 6 then Some parseType06
      else if blockType = 7 then Some (parseType07 decryptWithDES)
      else if blockType = 8 then Some (\<lambda>this. Some (None, this\<lparr>offset := offset this + 1\<rparr>))
      else if blockType = 9 then Some parseType09
      else None)"

lemma readString_frame:
  assumes "readString this n = Some (s, this')"
  shows "offset this' = offset this + n \<and> dataView this' = dataView this
         \<and> mainDataBlocksSize this' = mainDataBlocksSize this"
  using assms by (auto simp: readString_def Let_def split: if_splits bind_splits)

lemma parseType01_frame:
  "parseType01 this = Some (b, this') \<Longrightarrow>
     offset this \<le> offset this' \<and> dataView this' = dataView this
     \<and> mainDataBlocksSize this' = mainDataBlocksSize this"
  by (auto simp: parseType01_def Let_def split: bind_splits)

lemma parseType02_frame:
  "parseType02 this = Some (b, this') \<Longrightarrow>
     offset this \<le> offset this' \<and> dataView this' = dataView this
     \<and> mainDataBlocksSize this' = mainDataBlocksSize this"
  by (auto simp: parseType02_def Let_def split: bind_splits dest!: readString_frame)

lemma parseType03_frame:
  "parseType03 this = Some (b, this') \<Longrightarrow>
     offset this \<le> offset this' \<and> dataView this' = dataView this
     \<and> mainDataBlocksSize this' = mainDataBlocksSize this"
  by (auto simp: parseType03_def Let_def split: bind_splits)

lemma parseType05_frame:
  "parseType05 this = Some (b, this') \<Longrightarrow>
     offset this \<le> offset this' \<and> dataView this' = dataView this
     \<and> mainDataBlocksSize this' = mainDataBlocksSize this"
  by (auto simp: parseType05_def Let_def split: bind_splits)

lemma parseType06_frame:
  "parseType06 this = Some (b, this') \<Longrightarrow>
     offset this \<le> offset this' \<and> dataView this' = dataView this
     \<and> mainDataBlocksSize this' = mainDataBlocksSize this"
  by (auto simp: parseType06_def Let_def split: bind_splits dest!: readString_frame)

lemma parseType07_frame:
  "parseType07 des this = Some (b, this') \<Longrightarrow>
     offset this \<le> offset this' \<and> dataView this' = dataView this
     \<and> mainDataBlocksSize this' = mainDataBlocksSize this"
  by (auto simp: parseType07_def Let_def split: bind_splits option.splits prod.splits)

lemma parseType09_frame:
  "parseType09 this = Some (b, this') \<Longrightarrow>
     offset this \<le> offset this' \<and> dataView this' = dataView this
     \<and> mainDataBlocksSize this' = mainDataBlocksSize this"
  by (auto simp: parseType09_def Let_def split: bind_splits)

lemma blockHandlers_frame:
  assumes "blockHandlers des blockType = Some handler" and "handler this = Some (b, this')"
  shows "offset this \<le> offset this' \<and> dataView this' = dataView this
         \<and> mainDataBlocksSize this' = mainDataBlocksSize this"
  using assms
  by (auto simp: blockHandlers_def split: if_splits
           dest: parseType01_frame parseType02_frame parseType03_frame parseType05_frame
                 parseType06_frame parseType07_frame parseType09_frame)

text \<open>
  The \<^verbatim>\<open>while\<close> loop of \<^verbatim>\<open>parseMainDataBlocks\<close>. A tag with no handler is reported
  by \<^verbatim>\<open>console.warn\<close> and the loop goes on; a handler that returns \<^verbatim>\<open>null\<close> appends
  nothing.
\<close>

function main_loop ::
  "decryptor \<Rightarrow> nat \<Rightarrow> RawPCBParser \<Rightarrow> block list \<Rightarrow> (block list \<times> RawPCBParser) option" where
  "main_loop decryptWithDES endOffset this blocks =
     (if offset this < endOffset \<and> offset this < length (dataView this)
      then (case getUint32 (dataView this) (offset this) of
              None \<Rightarrow> None
            | Some padding \<Rightarrow>
                if padding = 0
                then main_loop decryptWithDES endOffset (this\<lparr>offset := offset this + 4\<rparr>) blocks
                else (case getUint8 (dataView this) (offset this) of
                        None \<Rightarrow> None
                      | Some blockType \<Rightarrow>
                          (case blockHandlers decryptWithDES blockType of
                             None \<Rightarrow>
                               main_loop decryptWithDES endOffset
                                 (this\<lparr>offset := offset this + 1\<rparr>) blocks
                           | Some handler \<Rightarrow>
                               (case handler (this\<lparr>offset := offset this + 1\<rparr>) of
                                  None \<Rightarrow> None
                                | Some (block, this') \<Rightarrow>
                                    main_loop decryptWithDES endOffset this'
                                      (case block of None \<Rightarrow> blocks | Some b \<Rightarrow> blocks @ [b])))))
      else Some (blocks, this))"
  by pat_completeness auto
termination
proof (relation "measure (\<lambda>(des, e, this, blocks). length (dataView this) - offset this)")
  show "wf (measure (\<lambda>(des, e, this, blocks). length (dataView this) - offset this))"
    by simp
next
  fix des :: decryptor and e :: nat and this :: RawPCBParser and blocks :: "block list"
  assume "offset this < e \<and> offset this < length (dataView this)"
  then show "((des, e, this\<lparr>offset := offset this + 4\<rparr>, blocks), (des, e, this, blocks))
        \<in> measure (\<lambda>(des, e, this, blocks). length (dataView this) - offset this)"
    by simp arith
next
  fix des :: decryptor and e :: nat and this :: RawPCBParser and blocks :: "block list"
  assume "offset this < e \<and> offset this < length (dataView this)"
  then show "((des, e, this\<lparr>offset := offset this + 1\<rparr>, blocks), (des, e, this, blocks))
        \<in> measure (\<lambda>(des, e, this, blocks). length (dataView this) - offset this)"
    by simp arith
next
  fix des :: decryptor and e :: nat and this :: RawPCBParser and blocks :: "block list"
    and blockType handler x2 x y
  assume guard: "offset this < e \<and> offset this < length (dataView this)"
    and h: "blockHandlers des blockType = Some handler"
    and r: "handler (this\<lparr>offset := offset this + 1\<rparr>) = Some x2" and x2: "(x, y) = x2"
  from r x2 have "handler (this\<lparr>offset := offset this + 1\<rparr>) = Some (x, y)" by simp
  from blockHandlers_frame [OF h this] guard
  show "((des, e, y, case x of None \<Rightarrow> blocks | Some b \<Rightarrow> blocks @ [b]), (des, e, this, blocks))
        \<in> measure (\<lambda>(des, e, this, blocks). length (dataView this) - offset this)"
    by simp arith
qed

declare main_loop.simps [simp del]

definition parseMainDataBlocks ::
  "decryptor \<Rightarrow> RawPCBParser \<Rightarrow> (block list \<times> RawPCBParser) option" where
  "parseMainDataBlocks decryptWithDES this =
     (let startOffset = offset this;
          endOffset = startOffset + mainDataBlocksSize this
      in main_loop decryptWithDES endOffset this [])"

text \<open>
  \<^verbatim>\<open>parseFileHeader\<close>. The debugging loop before the two assignments reads the bytes
  below \<^verbatim>\<open>Math.min(0x50, dv.byteLength)\<close>, all within the view, and only prints them.
\<close>

definition parseFileHeader :: "RawPCBParser \<Rightarrow> RawPCBParser option" where
  "parseFileHeader this = do {
     mainSize \<leftarrow> getUint32 (dataView this) 64;
     Some (this\<lparr>mainDataBlocksSize := mainSize, offset := 68\<rparr>)
   }"

text \<open>
  \<^verbatim>\<open>findSequence\<close>: the inner loop over \<open>j\<close> (\<open>Some True\<close> when it runs to its end and
  \<^verbatim>\<open>return i\<close> follows, \<open>Some False\<close> at \<^verbatim>\<open>continue outer\<close>) and the outer loop over
  \<open>i\<close>, whose bound \<^verbatim>\<open>arrayLen - seqLen\<close> may be negative.
\<close>

function findSequence_inner :: "byte list \<Rightarrow> nat list \<Rightarrow> nat \<Rightarrow> nat \<Rightarrow> bool option" where
  "findSequence_inner array sequence i j =
     (if j < length sequence
      then (case getUint8 array (i + j) of
              None \<Rightarrow> None
            | Some v \<Rightarrow>
                if v \<noteq> sequence ! j then Some False
                else findSequence_inner array sequence i (j + 1))
      else Some True)"
  by pat_completeness auto
termination
  by (relation "measure (\<lambda>(array, sequence, i, j). length sequence - j)") auto

declare findSequence_inner.simps [simp del]

function findSequence_outer :: "byte list \<Rightarrow> nat list \<Rightarrow> nat \<Rightarrow> int option" where
  "findSequence_outer array sequence i =
     (if int i \<le> int (length array) - int (length sequence)
      then (case findSequence_inner array sequence i 0 of
              None \<Rightarrow> None
            | Some matched \<Rightarrow>
                if matched then Some (int i)
                else findSequence_outer array sequence (i + 1))
      else Some (- 1))"
  by pat_completeness auto
termination
  by (relation "measure (\<lambda>(array, sequence, i). Suc (length array) - i)") auto

declare findSequence_outer.simps [simp del]

definition findSequence :: "byte list \<Rightarrow> nat list \<Rightarrow> int option" where
  "findSequence array sequence = findSequence_outer array sequence 0"

definition sequence :: "nat list" where
  "sequence = [0x76, 0x36, 0x76, 0x36, 0x35, 0x35, 0x35, 0x76, 0x36, 0x76, 0x36]"

text \<open>The XOR loop of \<^verbatim>\<open>parse\<close>, from index \<open>i\<close> on.\<close>

function xor_loop :: "byte list \<Rightarrow> nat \<Rightarrow> nat \<Rightarrow> nat \<Rightarrow> byte list option" where
  "xor_loop dv xorKey xoredDataLength i =
     (if i < xoredDataLength
      then (case getUint8 dv i of
              None \<Rightarrow> None
            | Some v \<Rightarrow>
                (case setUint8 dv i (v XOR xorKey) of
                   None \<Rightarrow> None
                 | Some dv' \<Rightarrow> xor_loop dv' xorKey xoredDataLength (i + 1)))
      else Some dv)"
  by pat_completeness auto
termination
  by (relation "measure (\<lambda>(dv, xorKey, n, i). n - i)") auto

declare xor_loop.simps [simp del]

text \<open>
  The block of \<^verbatim>\<open>parse\<close> under the comment ``XOR decryption logic'', on the view of
  \<^verbatim>\<open>this\<close>: the new contents of the buffer, or \<open>None\<close> where a read throws.
\<close>

definition xorDecryption :: "byte list \<Rightarrow> byte list option" where
  "xorDecryption dv = do {
     flag \<leftarrow> getUint8 dv 16;
     if flag \<noteq> 0 then do {
       sequenceIndex \<leftarrow> findSequence dv sequence;
       let xoredDataLength = (if sequenceIndex \<noteq> - 1 then nat sequenceIndex else length dv);
       xorKey \<leftarrow> getUint8 dv 16;
       xor_loop dv xorKey xoredDataLength 0
     } else Some dv
   }"

text \<open>
  \<^verbatim>\<open>parse(arrayBuffer)\<close>. The first component of the result is the contents of the
  caller's buffer when \<^verbatim>\<open>parse\<close> is left, by \<^verbatim>\<open>return\<close> or by an exception: the XOR
  loop is the only code that writes to the view. The second component is the returned
  object, or \<open>None\<close> where an exception leaves \<^verbatim>\<open>parse\<close>.
\<close>

definition parse ::
  "decryptor \<Rightarrow> RawPCBParser \<Rightarrow> byte list \<Rightarrow> byte list \<times> parse_result option" where
  "parse decryptWithDES this arrayBuffer =
     (let this = this\<lparr>dataView := arrayBuffer, offset := 0\<rparr> in
      case xorDecryption (dataView this) of
        None \<Rightarrow> (arrayBuffer, None)
      | Some dv \<Rightarrow>
          (dv, do {
             let this = this\<lparr>dataView := dv\<rparr>;
             this \<leftarrow> parseFileHeader this;
             (blocks, this) \<leftarrow> parseMainDataBlocks decryptWithDES this;
             Some \<lparr>main_data_block = blocks\<rparr>
           }))"

section \<open>Evaluation on concrete buffers\<close>

text \<open>The equations that run the two parsers on a concrete buffer.\<close>

lemmas part_eval = PartDataParser_parse_def p_init_def parseHeader_def sub_blocks_loop.simps
  subBlockHandlers_def parseSubType01_def parseSubType05_def parseSubType06_def parseSubType09_def
  pins_loop.simps read_pin_def p_readString_def getUint8_def getUint32_def Uint8Array_def
  XY_SCALE_def Let_def nth_append

lemmas raw_eval = parse_def parseFileHeader_def parseMainDataBlocks_def
  main_loop.simps blockHandlers_def getUint8_def getUint16_def getUint32_def getInt32_def
  parseType01_def parseType02_def parseType03_def parseType05_def parseType06_def
  parseType07_def parseType09_def readString_def Uint8Array_def XY_SCALE_def Let_def nth_append
  new_RawPCBParser_def CryptoJS_undefined_def

lemmas string_eval = getUint8_def getUint16_def getUint32_def getInt32_def readString_def
  p_readString_def Uint8Array_def TextDecoder_decode_def strip_bom_def utf8_lead_def u_init_def
  XY_SCALE_def Let_def nth_append

section \<open>The XOR pass\<close>

text \<open>
  The specification's words for the end of the obfuscated prefix. The sentinel occurs at
  index \<open>k\<close> when the bytes from \<open>k\<close> on begin with it; the end \<open>e\<close> is the index of its
  first occurrence, or the length of the buffer when it occurs nowhere.
\<close>

definition occurs_at :: "byte list \<Rightarrow> nat list \<Rightarrow> nat \<Rightarrow> bool" where
  "occurs_at b s k \<longleftrightarrow> k + length s \<le> length b \<and> map unat (take (length s) (drop k b)) = s"

definition xor_end :: "byte list \<Rightarrow> nat \<Rightarrow> bool" where
  "xor_end b e \<longleftrightarrow>
     (occurs_at b sequence e \<and> (\<forall>k<e. \<not> occurs_at b sequence k))
     \<or> (e = length b \<and> (\<forall>k. \<not> occurs_at b sequence k))"

text \<open>The buffer with every byte below \<open>e\<close> replaced by its XOR with byte 16.\<close>

definition xored :: "byte list \<Rightarrow> nat \<Rightarrow> byte list" where
  "xored b e = map (\<lambda>i. if i < e then b ! i XOR b ! 16 else b ! i) [0..<length b]"

text \<open>
  A buffer of 18 bytes: the sentinel at index 1, the key \<open>0x5A\<close> at index 16.
\<close>

definition obfuscated_example :: "byte list" where
  "obfuscated_example =
     [0x2A, 0x76, 0x36, 0x76, 0x36, 0x35, 0x35, 0x35, 0x76, 0x36, 0x76, 0x36,
      1, 2, 3, 4, 0x5A, 9]"

lemma occurs_at_nth:
  "occurs_at b s k \<longleftrightarrow> k + length s \<le> length b \<and> (\<forall>j<length s. unat (b ! (k + j)) = s ! j)"
  by (auto simp: occurs_at_def list_eq_iff_nth_eq)

lemma findSequence_inner_eq:
  "i + length s \<le> length a \<Longrightarrow>
     findSequence_inner a s i j = Some (\<forall>k. j \<le> k \<and> k < length s \<longrightarrow> unat (a ! (i + k)) = s ! k)"
proof (induction a s i j rule: findSequence_inner.induct)
  case (1 array sequence i j)
  show ?case
  proof (cases "j < length sequence")
    case False
    then show ?thesis by (simp add: findSequence_inner.simps [of array sequence i j])
  next
    case True
    with "1.prems" have g: "getUint8 array (i + j) = Some (unat (array ! (i + j)))"
      by (simp add: getUint8_def)
    show ?thesis
    proof (cases "unat (array ! (i + j)) = sequence ! j")
      case False
      with True g show ?thesis
        by (auto simp: findSequence_inner.simps [of array sequence i j])
    next
      case eq: True
      have "(\<forall>k. j \<le> k \<and> k < length sequence \<longrightarrow> unat (array ! (i + k)) = sequence ! k)
            = (\<forall>k. j + 1 \<le> k \<and> k < length sequence \<longrightarrow> unat (array ! (i + k)) = sequence ! k)"
        using eq by (metis Suc_eq_plus1 Suc_leI le_neq_implies_less Suc_leD)
      with "1.IH" [OF True g _ "1.prems"] eq True g show ?thesis
        by (simp add: findSequence_inner.simps [of array sequence i j])
    qed
  qed
qed

lemma findSequence_inner_occurs:
  "i + length s \<le> length a \<Longrightarrow> findSequence_inner a s i 0 = Some (occurs_at a s i)"
  by (simp add: findSequence_inner_eq occurs_at_nth)

lemma findSequence_outer_spec:
  "\<exists>r. findSequence_outer a s i = Some r \<and>
     ((r = - 1 \<and> (\<forall>k\<ge>i. \<not> occurs_at a s k))
      \<or> (\<exists>k. r = int k \<and> i \<le> k \<and> occurs_at a s k \<and> (\<forall>k'. i \<le> k' \<and> k' < k \<longrightarrow> \<not> occurs_at a s k')))"
proof (induction a s i rule: findSequence_outer.induct)
  case (1 array sequence i)
  show ?case
  proof (cases "int i \<le> int (length array) - int (length sequence)")
    case False
    then have "\<forall>k\<ge>i. \<not> occurs_at array sequence k"
      by (auto simp: occurs_at_def)
    with False show ?thesis
      by (simp add: findSequence_outer.simps [of array sequence i])
  next
    case True
    then have le: "i + length sequence \<le> length array" by linarith
    note inner = findSequence_inner_occurs [OF le]
    show ?thesis
    proof (cases "occurs_at array sequence i")
      case occ: True
      with True inner show ?thesis
        by (auto simp: findSequence_outer.simps [of array sequence i])
    next
      case nocc: False
      from "1.IH" [OF True inner] nocc
      obtain r where r: "findSequence_outer array sequence (i + 1) = Some r"
        and d: "(r = - 1 \<and> (\<forall>k\<ge>i + 1. \<not> occurs_at array sequence k))
          \<or> (\<exists>k. r = int k \<and> i + 1 \<le> k \<and> occurs_at array sequence k
                \<and> (\<forall>k'. i + 1 \<le> k' \<and> k' < k \<longrightarrow> \<not> occurs_at array sequence k'))"
        by auto
      have eq: "findSequence_outer array sequence i = Some r"
        using True inner nocc r by (simp add: findSequence_outer.simps [of array sequence i])
      from d show ?thesis
      proof
        assume "r = - 1 \<and> (\<forall>k\<ge>i + 1. \<not> occurs_at array sequence k)"
        then have "r = - 1 \<and> (\<forall>k\<ge>i. \<not> occurs_at array sequence k)"
          using nocc by (metis Suc_eq_plus1 Suc_leI le_neq_implies_less)
        with eq show ?thesis by simp
      next
        assume "\<exists>k. r = int k \<and> i + 1 \<le> k \<and> occurs_at array sequence k
                \<and> (\<forall>k'. i + 1 \<le> k' \<and> k' < k \<longrightarrow> \<not> occurs_at array sequence k')"
        then obtain k where k: "r = int k" "i + 1 \<le> k" "occurs_at array sequence k"
          "\<forall>k'. i + 1 \<le> k' \<and> k' < k \<longrightarrow> \<not> occurs_at array sequence k'" by blast
        have "\<forall>k'. i \<le> k' \<and> k' < k \<longrightarrow> \<not> occurs_at array sequence k'"
          using k(4) nocc by (metis Suc_eq_plus1 Suc_leI le_neq_implies_less)
        with k eq show ?thesis by auto
      qed
    qed
  qed
qed

lemma xor_loop_spec:
  "n \<le> length dv \<Longrightarrow>
     \<exists>dv'. xor_loop dv key n i = Some dv' \<and> length dv' = length dv
       \<and> (\<forall>k<length dv. dv' ! k = (if i \<le> k \<and> k < n then of_nat (unat (dv ! k) XOR key) else dv ! k))"
proof (induction dv key n i rule: xor_loop.induct)
  case (1 dv xorKey n i)
  show ?case
  proof (cases "i < n")
    case False
    then show ?thesis by (auto simp: xor_loop.simps [of dv xorKey n i])
  next
    case True
    with "1.prems" have il: "i < length dv" by simp
    let ?dv1 = "dv[i := of_nat (unat (dv ! i) XOR xorKey)]"
    have g: "getUint8 dv i = Some (unat (dv ! i))" using il by (simp add: getUint8_def)
    have s: "setUint8 dv i (unat (dv ! i) XOR xorKey) = Some ?dv1"
      using il by (simp add: setUint8_def)
    from "1.IH" [OF True g s] "1.prems"
    obtain dv' where l: "xor_loop ?dv1 xorKey n (i + 1) = Some dv'"
      and len: "length dv' = length dv"
      and nth: "\<forall>k<length dv. dv' ! k =
          (if i + 1 \<le> k \<and> k < n then of_nat (unat (?dv1 ! k) XOR xorKey) else ?dv1 ! k)"
      by auto
    have eq: "xor_loop dv xorKey n i = Some dv'"
      using True g s l by (simp add: xor_loop.simps [of dv xorKey n i])
    have "\<forall>k<length dv. dv' ! k =
        (if i \<le> k \<and> k < n then of_nat (unat (dv ! k) XOR xorKey) else dv ! k)"
    proof (intro allI impI)
      fix k assume kl: "k < length dv"
      show "dv' ! k = (if i \<le> k \<and> k < n then of_nat (unat (dv ! k) XOR xorKey) else dv ! k)"
      proof (cases "k = i")
        case True
        with nth kl il \<open>i < n\<close> show ?thesis by simp
      next
        case False
        with nth kl show ?thesis by auto
      qed
    qed
    with eq len show ?thesis by simp
  qed
qed

lemma byte_xor: "(of_nat (unat (a :: byte) XOR unat (b :: byte)) :: byte) = a XOR b"
  by (simp add: unsigned_xor_eq flip: unsigned_xor_eq)

lemma xor_end_le: "xor_end b e \<Longrightarrow> e \<le> length b"
  by (auto simp: xor_end_def occurs_at_def)

lemma xorDecryption_spec:
  assumes "16 < length b" and "xor_end b e"
  shows "xorDecryption b = Some (if b ! 16 = 0 then b else xored b e)"
proof (cases "b ! 16 = 0")
  case True
  with assms(1) show ?thesis by (simp add: xorDecryption_def getUint8_def)
next
  case False
  then have nz: "unat (b ! 16) \<noteq> 0" by (simp add: unat_eq_0)
  have g: "getUint8 b 16 = Some (unat (b ! 16))" using assms(1) by (simp add: getUint8_def)
  from findSequence_outer_spec [of b sequence 0]
  obtain r where r: "findSequence b sequence = Some r"
    and d: "(r = - 1 \<and> (\<forall>k. \<not> occurs_at b sequence k))
      \<or> (\<exists>k. r = int k \<and> occurs_at b sequence k \<and> (\<forall>k'<k. \<not> occurs_at b sequence k'))"
    by (auto simp: findSequence_def)
  have e: "(if r \<noteq> - 1 then nat r else length b) = e"
  proof -
    from d show ?thesis
    proof
      assume a: "r = - 1 \<and> (\<forall>k. \<not> occurs_at b sequence k)"
      with assms(2) show ?thesis by (auto simp: xor_end_def)
    next
      assume "\<exists>k. r = int k \<and> occurs_at b sequence k \<and> (\<forall>k'<k. \<not> occurs_at b sequence k')"
      then obtain k where k: "r = int k" "occurs_at b sequence k" "\<forall>k'<k. \<not> occurs_at b sequence k'"
        by blast
      from assms(2) k(2) have eo: "occurs_at b sequence e" "\<forall>k'<e. \<not> occurs_at b sequence k'"
        by (auto simp: xor_end_def)
      have "k = e" using k(2,3) eo by (meson linorder_neqE_nat)
      with k(1) show ?thesis by simp
    qed
  qed
  from xor_loop_spec [OF xor_end_le [OF assms(2)], of "unat (b ! 16)" 0]
  obtain dv' where l: "xor_loop b (unat (b ! 16)) e 0 = Some dv'" and len: "length dv' = length b"
    and nth: "\<forall>k<length b. dv' ! k = (if k < e then of_nat (unat (b ! k) XOR unat (b ! 16)) else b ! k)"
    by auto
  have "dv' = xored b e"
    using len nth by (auto simp: xored_def byte_xor intro!: nth_equalityI)
  with g nz r e l False show ?thesis
    by (simp add: xorDecryption_def Let_def)
qed

lemma xorDecryption_short: "length b \<le> 16 \<Longrightarrow> xorDecryption b = None"
  by (simp add: xorDecryption_def getUint8_def)



text \<open>
  Claim C4. On a buffer that has a byte at offset \<open>0x10\<close>, \<^verbatim>\<open>parse\<close> runs the XOR pass
  if and only if that byte is not zero. When it runs, every byte at an index below \<open>e\<close>
  is replaced by its XOR with the byte at \<open>0x10\<close> of the input, \<open>e\<close> being the index of
  the first occurrence of the sentinel, or the length of the buffer when the sentinel is
  absent; the bytes from \<open>e\<close> on are unchanged. When the byte at \<open>0x10\<close> is zero the buffer
  is left as it is.
\<close>

theorem xor_deobfuscation:
  assumes "16 < length b" and "xor_end b e"
  shows "fst (parse des this b) =
           (if b ! 16 = 0 then b
            else map (\<lambda>i. if i < e then b ! i XOR b ! 16 else b ! i) [0..<length b])"
  using xorDecryption_spec [OF assms]
  by (simp add: parse_def Let_def xored_def)

theorem xor_deobfuscation_witness:
  "16 < length obfuscated_example \<and> xor_end obfuscated_example 1
   \<and> fst (parse CryptoJS_undefined new_RawPCBParser obfuscated_example) =
       [0x70, 0x76, 0x36, 0x76, 0x36, 0x35, 0x35, 0x35, 0x76, 0x36, 0x76, 0x36,
        1, 2, 3, 4, 0x5A, 9]"
proof -
  have l: "16 < length obfuscated_example" by (simp add: obfuscated_example_def)
  have e: "xor_end obfuscated_example 1"
    by (simp add: xor_end_def occurs_at_def obfuscated_example_def sequence_def)
  have "map (\<lambda>i. if i < 1 then obfuscated_example ! i XOR obfuscated_example ! 16
                   else obfuscated_example ! i) [0..<length obfuscated_example]
        = [0x70, 0x76, 0x36, 0x76, 0x36, 0x35, 0x35, 0x35, 0x76, 0x36, 0x76, 0x36,
           1, 2, 3, 4, 0x5A, 9]"
    by (simp add: obfuscated_example_def upt_rec)
  with xor_deobfuscation [OF l e, of CryptoJS_undefined new_RawPCBParser] l e
  show ?thesis by (simp add: obfuscated_example_def)
qed

section \<open>The caller's buffer\<close>

lemma main_loop_frame:
  "main_loop des e this blocks = Some (blocks', this') \<Longrightarrow>
     dataView this' = dataView this \<and> mainDataBlocksSize this' = mainDataBlocksSize this"
proof (induction des e this blocks rule: main_loop.induct)
  case (1 des e this blocks)
  show ?case
  proof (cases "offset this < e \<and> offset this < length (dataView this)")
    case False
    with "1.prems" show ?thesis by (auto simp: main_loop.simps [of des e this])
  next
    case True
    with "1.prems" obtain padding where p: "getUint32 (dataView this) (offset this) = Some padding"
      by (auto simp: main_loop.simps [of des e this] split: option.splits)
    show ?thesis
    proof (cases "padding = 0")
      case z: True
      with True p "1.prems" have
        "main_loop des e (this\<lparr>offset := offset this + 4\<rparr>) blocks = Some (blocks', this')"
        by (simp add: main_loop.simps [of des e this])
      from "1.IH"(1) [OF True p z this] show ?thesis by simp
    next
      case nz: False
      from True have t: "getUint8 (dataView this) (offset this) = Some (unat (dataView this ! offset this))"
        by (simp add: getUint8_def)
      show ?thesis
      proof (cases "blockHandlers des (unat (dataView this ! offset this))")
        case None
        with True p nz t "1.prems" have
          "main_loop des e (this\<lparr>offset := offset this + 1\<rparr>) blocks = Some (blocks', this')"
          by (simp add: main_loop.simps [of des e this])
        from "1.IH"(2) [OF True p nz t None this] show ?thesis by simp
      next
        case (Some handler)
        with True p nz t "1.prems" obtain block this1
          where h: "handler (this\<lparr>offset := offset this + 1\<rparr>) = Some (block, this1)"
            and l: "main_loop des e this1 (case block of None \<Rightarrow> blocks | Some b \<Rightarrow> blocks @ [b])
                      = Some (blocks', this')"
          by (auto simp: main_loop.simps [of des e this] split: option.splits)
        from "1.IH"(3) [OF True p nz t Some h refl l] blockHandlers_frame [OF Some h]
        show ?thesis by simp
      qed
    qed
  qed
qed

lemma byte_xor_fixed: "(a :: byte) XOR k = a \<longleftrightarrow> k = 0"
proof
  assume "a XOR k = a"
  then have "a XOR (a XOR k) = a XOR a" by simp
  then show "k = 0" by (simp flip: xor.assoc)
qed simp

lemma xored_eq_iff:
  assumes "16 < length b" and "b ! 16 \<noteq> 0" and "e \<le> length b"
  shows "xored b e = b \<longleftrightarrow> e = 0"
proof
  assume eq: "xored b e = b"
  show "e = 0"
  proof (rule ccontr)
    assume "e \<noteq> 0"
    moreover from assms(1) have "0 < length b" by (cases b) auto
    ultimately have "xored b e ! 0 = b ! 0 XOR b ! 16" by (simp add: xored_def)
    with eq have "b ! 0 XOR b ! 16 = b ! 0" by simp
    with assms(2) show False by (simp only: byte_xor_fixed)
  qed
next
  assume "e = 0"
  then show "xored b e = b" by (simp add: xored_def map_nth)
qed

text \<open>
  Claim C6, as amended. \<^verbatim>\<open>parse\<close> runs the XOR pass in place on the caller's buffer,
  not on a copy. The caller's buffer is left unchanged when it has no byte at offset
  \<open>0x10\<close> or that byte is zero; when that byte is not zero, the buffer is unchanged only
  if the obfuscated prefix is empty (the sentinel stands at index 0). The passes after the
  XOR pass, \<^verbatim>\<open>parseFileHeader\<close> and \<^verbatim>\<open>parseMainDataBlocks\<close>, only read the buffer.
\<close>

theorem caller_buffer_after_decode:
  "(length b \<le> 16 \<or> b ! 16 = 0 \<longrightarrow> fst (parse des this b) = b)
   \<and> (16 < length b \<and> b ! 16 \<noteq> 0 \<and> xor_end b e \<longrightarrow>
        (fst (parse des this b) = b \<longleftrightarrow> e = 0))
   \<and> (\<forall>p p'. parseFileHeader p = Some p' \<longrightarrow> dataView p' = dataView p)
   \<and> (\<forall>p blocks p'. parseMainDataBlocks des p = Some (blocks, p') \<longrightarrow> dataView p' = dataView p)"
proof (intro conjI allI impI)
  assume a: "length b \<le> 16 \<or> b ! 16 = 0"
  show "fst (parse des this b) = b"
  proof (cases "length b \<le> 16")
    case True
    then show ?thesis by (simp add: parse_def xorDecryption_short)
  next
    case False
    with a have "xorDecryption b = Some b"
      by (simp add: xorDecryption_def getUint8_def)
    then show ?thesis by (simp add: parse_def)
  qed
next
  assume a: "16 < length b \<and> b ! 16 \<noteq> 0 \<and> xor_end b e"
  then have "xorDecryption b = Some (xored b e)"
    using xorDecryption_spec [of b e] by simp
  then have "fst (parse des this b) = xored b e" by (simp add: parse_def)
  with a xored_eq_iff [of b e] xor_end_le [of b e]
  show "fst (parse des this b) = b \<longleftrightarrow> e = 0" by simp
next
  fix p p' assume "parseFileHeader p = Some p'"
  then show "dataView p' = dataView p"
    by (auto simp: parseFileHeader_def split: bind_splits)
next
  fix p blocks p' assume "parseMainDataBlocks des p = Some (blocks, p')"
  then show "dataView p' = dataView p"
    by (auto simp: parseMainDataBlocks_def Let_def dest: main_loop_frame)
qed

text \<open>
  The claim as stated fails on an obfuscated minimal file, 68 bytes \<open>0x5A\<close>: \<^verbatim>\<open>parse\<close>
  returns the empty board and leaves 68 zero bytes in the caller's buffer.
\<close>

theorem caller_buffer_counterexample:
  "parse CryptoJS_undefined new_RawPCBParser (replicate 68 0x5A)
     = (replicate 68 0, Some \<lparr>main_data_block = []\<rparr>)"
proof -
  have n: "\<forall>k. \<not> occurs_at (replicate 68 (0x5A :: byte)) sequence k"
    by (auto simp: occurs_at_nth sequence_def)
  have e: "xor_end (replicate 68 0x5A) 68" using n by (simp add: xor_end_def)
  have "xored (replicate 68 (0x5A :: byte)) 68 = replicate 68 0"
    by (auto simp: xored_def intro!: nth_equalityI)
  with xorDecryption_spec [OF _ e] have "xorDecryption (replicate 68 0x5A) = Some (replicate 68 0)"
    by simp
  then show ?thesis
    by (simp add: raw_eval)
qed

theorem caller_buffer_after_decode_witness:
  "fst (parse CryptoJS_undefined new_RawPCBParser (replicate 68 0)) = replicate 68 0
   \<and> fst (parse CryptoJS_undefined new_RawPCBParser obfuscated_example) \<noteq> obfuscated_example
   \<and> parseFileHeader \<lparr>dataView = replicate 68 0, offset = 0, mainDataBlocksSize = 5\<rparr>
        = Some \<lparr>dataView = replicate 68 0, offset = 68, mainDataBlocksSize = 0\<rparr>
   \<and> parseMainDataBlocks CryptoJS_undefined \<lparr>dataView = [4, 9, 0, 0, 0, 0], offset = 0, mainDataBlocksSize = 6\<rparr>
        = Some ([], \<lparr>dataView = [4, 9, 0, 0, 0, 0], offset = 6, mainDataBlocksSize = 6\<rparr>)
   \<and> dataView \<lparr>dataView = [4, 9, 0, 0, 0, 0], offset = 6, mainDataBlocksSize = 6\<rparr> = [4, 9, 0, 0, 0, 0]"
proof -
  let ?p = "\<lparr>dataView = [4, 9, 0, 0, 0, 0], offset = 0, mainDataBlocksSize = 6\<rparr>"
  let ?p' = "\<lparr>dataView = [4, 9, 0, 0, 0, 0], offset = 6, mainDataBlocksSize = 6\<rparr>"
  note inst = caller_buffer_after_decode [where des = CryptoJS_undefined and this = new_RawPCBParser]
  have 1: "fst (parse CryptoJS_undefined new_RawPCBParser (replicate 68 0)) = replicate 68 0"
    using inst [where b = "replicate 68 0", THEN conjunct1] by simp
  have e: "16 < length obfuscated_example \<and> obfuscated_example ! 16 \<noteq> 0 \<and> xor_end obfuscated_example 1"
    by (simp add: xor_end_def occurs_at_def obfuscated_example_def sequence_def)
  have 2: "fst (parse CryptoJS_undefined new_RawPCBParser obfuscated_example) \<noteq> obfuscated_example"
    using inst [where b = obfuscated_example and e = 1, THEN conjunct2, THEN conjunct1] e by simp
  have 3: "parseFileHeader \<lparr>dataView = replicate 68 0, offset = 0, mainDataBlocksSize = 5\<rparr>
        = Some \<lparr>dataView = replicate 68 0, offset = 68, mainDataBlocksSize = 0\<rparr>"
    by (simp add: parseFileHeader_def getUint32_def)
  have 4: "parseMainDataBlocks CryptoJS_undefined ?p = Some ([], ?p')"
    by (simp add: raw_eval)
  have 5: "dataView ?p' = dataView ?p"
    using inst [where b = "[]", THEN conjunct2, THEN conjunct2, THEN conjunct2, rule_format, OF 4] .
  from 1 2 3 4 5 show ?thesis by simp
qed

section \<open>Determinism\<close>

lemma parseFileHeader_eq:
  "parseFileHeader p =
     (case getUint32 (dataView p) 64 of
        None \<Rightarrow> None
      | Some sz \<Rightarrow> Some \<lparr>dataView = dataView p, offset = 68, mainDataBlocksSize = sz\<rparr>)"
  by (cases p) (simp add: parseFileHeader_def split: option.splits)

text \<open>
  Claim C10. \<^verbatim>\<open>parse\<close> is deterministic: what it returns (the blocks, in order, with all
  their fields, or the exception) and what it leaves in the buffer depend on the input
  bytes only, not on the state an earlier use left in the parser object.
\<close>

theorem decode_deterministic:
  "parse des this1 b = parse des this2 b"
  by (simp add: parse_def Let_def parseFileHeader_eq split: option.splits)

section \<open>Exceptions\<close>







section \<open>DATA blocks whose decryption fails\<close>

text \<open>
  What \<^verbatim>\<open>parseType07\<close> returns for a DATA block that lies within the buffer and whose
  decryption throws: the raw bytes of the block as \<open>encrypted_data\<close> and as
  \<open>decrypted_data\<close>, and as \<open>parsed_data\<close> the part parsed from the start of the whole
  file, not from the bytes of the block.
\<close>

lemma parseType07_decrypt_failure:
  assumes "getUint32 (dataView this) (offset this) = Some blockSize"
    and "offset this + 4 + blockSize \<le> length (dataView this)"
    and "des (take blockSize (drop (offset this + 4) (dataView this))) = None"
  shows "parseType07 des this =
           Some (Some (DATA \<lparr>data_block_size = blockSize,
                              encrypted_data = take blockSize (drop (offset this + 4) (dataView this)),
                              decrypted_data = take blockSize (drop (offset this + 4) (dataView this)),
                              parsed_data = PartDataParser_parse (dataView this) blockSize\<rparr>),
                 this\<lparr>offset := offset this + 4 + blockSize\<rparr>)"
  using assms by (simp add: parseType07_def Uint8Array_def Let_def add.assoc)

text \<open>
  A file of 80 bytes whose main region is one DATA block with a ciphertext of 7 bytes, not
  a multiple of 8. Read as a part, the first 59 bytes of the file are a header with
  \<open>part_size = 55\<close> followed by a line sub-block.
\<close>

definition data_example :: "byte list" where
  "data_example =
     [55, 0, 0, 0] @ replicate 22 0
     @ [5, 28, 0, 0, 0, 29, 0, 0, 0, 1, 0, 0, 0, 2, 0, 0, 0, 3, 0, 0, 0, 4, 0, 0, 0, 10, 0, 0, 0]
     @ replicate 9 0 @ [12, 0, 0, 0]
     @ [7, 7, 0, 0, 0, 1, 2, 3, 4, 5, 6, 7]"

definition line_example :: sub_block where
  "line_example = Sub05 \<lparr>s05_block_size = 28, s05_layer = 29, s05_x1 = 1, s05_y1 = 2,
      s05_x2 = 3, s05_y2 = 4, s05_scale = 10\<rparr>"

text \<open>
  Claim C2. The claim says that the part of a DATA block whose decryption fails has no
  sub-blocks. On the file above the decryptor throws; the seven bytes of the block, parsed
  as a part, give no part at all, but the DATA entity is returned with the part read from
  the start of the file, which has a line sub-block.
\<close>

theorem decrypt_failure_parses_whole_file:
  "PartDataParser_parse [1, 2, 3, 4, 5, 6, 7] 7 = None
   \<and> snd (parse CryptoJS_undefined new_RawPCBParser data_example) =
     Some \<lparr>main_data_block =
       [DATA \<lparr>data_block_size = 7, encrypted_data = [1, 2, 3, 4, 5, 6, 7],
               decrypted_data = [1, 2, 3, 4, 5, 6, 7],
               parsed_data = Some \<lparr>pd_header = \<lparr>part_size = 55, part_x = 0, part_y = 0,
                   part_rotation = 0, visibility = 0, part_group_name_size = 0,
                   part_group_name = []\<rparr>,
                 sub_blocks = [line_example]\<rparr>\<rparr>]\<rparr>"
proof -
  have p: "PartDataParser_parse data_example 7 =
      Some \<lparr>pd_header = \<lparr>part_size = 55, part_x = 0, part_y = 0,
                   part_rotation = 0, visibility = 0, part_group_name_size = 0,
                   part_group_name = []\<rparr>,
            sub_blocks = [line_example]\<rparr>"
    by (simp add: part_eval data_example_def line_example_def)
  have x: "xorDecryption data_example = Some data_example"
    by (simp add: xorDecryption_def getUint8_def data_example_def nth_append)
  have h: "getUint32 data_example 64 = Some 12" "length data_example = 80"
    "getUint32 data_example 68 = Some 1799" "getUint8 data_example 68 = Some 7"
    "getUint32 data_example 69 = Some 7"
    "take 7 (drop 73 data_example) = [1, 2, 3, 4, 5, 6, 7]"
    by (simp_all add: data_example_def getUint32_def getUint8_def nth_append)
  have n: "PartDataParser_parse [1, 2, 3, 4, 5, 6, 7] 7 = None"
    by (simp add: part_eval)
  show ?thesis
    using n p x h
    by (simp add: parse_def parseFileHeader_def parseMainDataBlocks_def main_loop.simps
          blockHandlers_def parseType07_def Uint8Array_def Let_def new_RawPCBParser_def
          CryptoJS_undefined_def)
qed

section \<open>The outer walker\<close>

text \<open>
  A file whose main region of 34 bytes is the unknown tag \<open>0x0A\<close> followed by a SEGMENT
  block, and the segment of that block.
\<close>

definition segment_example :: block where
  "segment_example = SEGMENT \<lparr>seg_layer = 1, seg_x1 = 100, seg_y1 = 200, seg_x2 = 300,
      seg_y2 = 400, seg_scale = 20000, seg_net_index = 7\<rparr>"

definition unknown_tag_example :: "byte list" where
  "unknown_tag_example =
     replicate 64 0 @ [34, 0, 0, 0]
     @ [10, 5, 28, 0, 0, 0, 1, 0, 0, 0, 100, 0, 0, 0, 200, 0, 0, 0, 44, 1, 0, 0, 144, 1, 0, 0,
        32, 78, 0, 0, 7, 0, 0, 0]"

text \<open>
  Claim C3. The claim says that an unknown tag ends the walk. On the file above the
  walker steps over the unknown tag and parses the SEGMENT block that follows it.
\<close>

theorem unknown_tag_walk_goes_on:
  "snd (parse CryptoJS_undefined new_RawPCBParser unknown_tag_example)
     = Some \<lparr>main_data_block = [segment_example]\<rparr>"
  by (simp add: raw_eval xorDecryption_def unknown_tag_example_def segment_example_def)

text \<open>
  A file whose main region is the two bytes \<open>04 05\<close>; the bytes after the region continue
  the \<open>05\<close> to a SEGMENT block.
\<close>

definition skip_tag_example :: "byte list" where
  "skip_tag_example =
     replicate 64 0 @ [2, 0, 0, 0]
     @ [4, 5, 28, 0, 0, 0, 1, 0, 0, 0, 100, 0, 0, 0, 200, 0, 0, 0, 44, 1, 0, 0, 144, 1, 0, 0,
        32, 78, 0, 0, 7, 0, 0, 0]"

text \<open>
  Claim C5, as amended. For every tag \<open>0x04\<close> or \<open>0x08\<close> that the outer walker meets in
  the main region with at least four bytes left in the buffer, the walker consumes exactly
  two bytes, the tag and the byte after it, appends no entity, and goes on at the second
  byte after the tag.
\<close>

theorem skip_tags_consume_two_bytes:
  assumes "offset this < endOffset" and "offset this + 4 \<le> length (dataView this)"
    and "dataView this ! offset this = 4 \<or> dataView this ! offset this = 8"
  shows "main_loop des endOffset this blocks
           = main_loop des endOffset (this\<lparr>offset := offset this + 2\<rparr>) blocks"
proof -
  from assms(3) have t: "unat (dataView this ! offset this) = 4 \<or> unat (dataView this ! offset this) = 8"
    by auto
  then obtain padding where p: "getUint32 (dataView this) (offset this) = Some padding" "padding \<noteq> 0"
    using assms(2) by (auto simp: getUint32_def)
  from assms(2) have g: "getUint8 (dataView this) (offset this) = Some (unat (dataView this ! offset this))"
    by (simp add: getUint8_def)
  from t show ?thesis
    using assms(1,2) p g
    by (auto simp: main_loop.simps [of des endOffset this] blockHandlers_def)
qed

text \<open>
  The claim as stated fails on the file above: the walker returns no entity, where a walk
  that went on at the byte after the tag \<open>04\<close> finds the SEGMENT block.
\<close>

theorem skip_tags_counterexample:
  "snd (parse CryptoJS_undefined new_RawPCBParser skip_tag_example) = Some \<lparr>main_data_block = []\<rparr>
   \<and> main_loop CryptoJS_undefined 70 \<lparr>dataView = skip_tag_example, offset = 69, mainDataBlocksSize = 2\<rparr> []
       = Some ([segment_example], \<lparr>dataView = skip_tag_example, offset = 102, mainDataBlocksSize = 2\<rparr>)"
  by (simp add: raw_eval xorDecryption_def skip_tag_example_def segment_example_def)

theorem skip_tags_consume_two_bytes_witness:
  "main_loop CryptoJS_undefined 6 \<lparr>dataView = [4, 9, 0, 0, 0, 0], offset = 0, mainDataBlocksSize = 6\<rparr> []
     = main_loop CryptoJS_undefined 6 \<lparr>dataView = [4, 9, 0, 0, 0, 0], offset = 2, mainDataBlocksSize = 6\<rparr> []
   \<and> main_loop CryptoJS_undefined 6 \<lparr>dataView = [4, 9, 0, 0, 0, 0], offset = 2, mainDataBlocksSize = 6\<rparr> []
     = Some ([], \<lparr>dataView = [4, 9, 0, 0, 0, 0], offset = 6, mainDataBlocksSize = 6\<rparr>)"
proof -
  let ?p = "\<lparr>dataView = [4, 9, 0, 0, 0, 0], offset = 0, mainDataBlocksSize = 6\<rparr>"
  have h: "offset ?p < 6" "offset ?p + 4 \<le> length (dataView ?p)"
    "dataView ?p ! offset ?p = 4 \<or> dataView ?p ! offset ?p = 8"
    by simp_all
  have "main_loop CryptoJS_undefined 6 ?p []
          = main_loop CryptoJS_undefined 6 (?p\<lparr>offset := offset ?p + 2\<rparr>) []"
    by (rule skip_tags_consume_two_bytes [OF h])
  moreover have "?p\<lparr>offset := offset ?p + 2\<rparr>
      = \<lparr>dataView = [4, 9, 0, 0, 0, 0], offset = 2, mainDataBlocksSize = 6\<rparr>"
    by simp
  moreover have "main_loop CryptoJS_undefined 6
       \<lparr>dataView = [4, 9, 0, 0, 0, 0], offset = 2, mainDataBlocksSize = 6\<rparr> []
     = Some ([], \<lparr>dataView = [4, 9, 0, 0, 0, 0], offset = 6, mainDataBlocksSize = 6\<rparr>)"
    by (simp add: raw_eval)
  ultimately show ?thesis by (simp only: simp_thms)
qed

section \<open>The part-block walker\<close>

text \<open>
  The loop condition of the part-block walker, in the words of the specification: the
  cursor plus \<open>pin_block_size\<close> is below the length of the view, and the cursor is below the
  length of the view.
\<close>

definition sub_walk_guard :: "PartDataParser \<Rightarrow> bool" where
  "sub_walk_guard this \<longleftrightarrow>
     p_offset this + pin_block_size this < length (p_dataView this)
     \<and> p_offset this < length (p_dataView this)"

text \<open>
  The header layout of the specification, read off the plaintext: \<open>part_size\<close> at offset 0,
  four bytes of padding, \<open>part_x\<close>, \<open>part_y\<close> and the rotation at offsets 8, 12 and 16, the
  visibility byte at offset 20 with one byte of padding, the size of the group name at
  offset 22 and the name from offset 26 on.
\<close>

definition header_at :: "byte list \<Rightarrow> header \<Rightarrow> bool" where
  "header_at plaintext h \<longleftrightarrow>
     getUint32 plaintext 0 = Some (part_size h)
     \<and> getUint32 plaintext 8 = Some (part_x h)
     \<and> getUint32 plaintext 12 = Some (part_y h)
     \<and> getUint32 plaintext 16 = Some (part_rotation h)
     \<and> getUint8 plaintext 20 = Some (visibility h)
     \<and> getUint32 plaintext 22 = Some (part_group_name_size h)
     \<and> (if part_group_name_size h = 0 then part_group_name h = []
         else 26 + part_group_name_size h \<le> length plaintext
              \<and> part_group_name h
                  = TextDecoder_decode (take (part_group_name_size h) (drop 26 plaintext)))"

text \<open>
  The walk of the specification over a view, as a relation: \<open>part_walk this tr this'\<close>
  holds when the walk that starts in state \<open>this\<close> consumes the sub-blocks of \<open>tr\<close>, each
  paired with the cursor at which its tag was read, and ends in state \<open>this'\<close>. It ends
  where the loop condition fails or where the tag read has no handler; it consumes a
  sub-block only where the loop condition holds.
\<close>

inductive part_walk ::
  "PartDataParser \<Rightarrow> (nat \<times> sub_block) list \<Rightarrow> PartDataParser \<Rightarrow> bool" where
  out_of_bound:
    "\<not> sub_walk_guard this \<Longrightarrow> part_walk this [] this"
| unknown_tag:
    "sub_walk_guard this \<Longrightarrow>
     getUint8 (p_dataView this) (p_offset this) = Some tag \<Longrightarrow>
     subBlockHandlers tag = None \<Longrightarrow>
     part_walk this [] (this\<lparr>p_offset := p_offset this + 1\<rparr>)"
| sub_block:
    "sub_walk_guard this \<Longrightarrow>
     getUint8 (p_dataView this) (p_offset this) = Some tag \<Longrightarrow>
     subBlockHandlers tag = Some handler \<Longrightarrow>
     handler (this\<lparr>p_offset := p_offset this + 1\<rparr>) = Some (sb, this1) \<Longrightarrow>
     part_walk this1 tr this' \<Longrightarrow>
     part_walk this ((p_offset this, sb) # tr) this'"

code_pred part_walk .

text \<open>
  An example payload: a header with \<open>part_size = 62\<close> and no group name, a line sub-block
  (tag 5) at offset 26, the unknown tag 255 at offset 59, and after it bytes that would
  read as another line sub-block. \<open>view_at k\<close> is the walker at cursor \<open>k\<close> of the payload's
  view, its first 66 bytes.
\<close>

definition part_example :: "byte list" where
  "part_example =
     [62, 0, 0, 0] @ replicate 22 0
     @ [5, 28, 0, 0, 0, 29, 0, 0, 0, 1, 0, 0, 0, 2, 0, 0, 0, 3, 0, 0, 0, 4, 0, 0, 0,
        10, 0, 0, 0, 0, 0, 0, 0]
     @ [255, 5, 0, 0, 0, 0, 0, 0, 0, 0, 0]"

definition header_example :: header where
  "header_example = \<lparr>part_size = 62, part_x = 0, part_y = 0, part_rotation = 0,
      visibility = 0, part_group_name_size = 0, part_group_name = []\<rparr>"

definition view_at :: "nat \<Rightarrow> PartDataParser" where
  "view_at k = \<lparr>p_dataView = take 66 part_example, p_offset = k, cur_block_size = 70,
      pin_block_size = 0\<rparr>"

lemma sub_walk_guard_read:
  "sub_walk_guard this \<Longrightarrow>
     getUint8 (p_dataView this) (p_offset this) = Some (unat (p_dataView this ! p_offset this))"
  by (simp add: sub_walk_guard_def getUint8_def)

lemma sub_blocks_loop_step:
  assumes "sub_walk_guard this"
    and "getUint8 (p_dataView this) (p_offset this) = Some tag"
    and "subBlockHandlers tag = Some handler"
  shows "sub_blocks_loop this acc =
           (case handler (this\<lparr>p_offset := p_offset this + 1\<rparr>) of
              None \<Rightarrow> None
            | Some (sb, this1) \<Rightarrow> sub_blocks_loop this1 (acc @ [sb]))"
  using assms by (auto simp: sub_walk_guard_def sub_blocks_loop.simps [of this])

lemma sub_blocks_loop_unknown:
  assumes "sub_walk_guard this"
    and "getUint8 (p_dataView this) (p_offset this) = Some tag"
    and "subBlockHandlers tag = None"
  shows "sub_blocks_loop this acc = Some (acc, this\<lparr>p_offset := p_offset this + 1\<rparr>)"
  using assms by (auto simp: sub_walk_guard_def sub_blocks_loop.simps [of this])

lemma sub_blocks_loop_out:
  "\<not> sub_walk_guard this \<Longrightarrow> sub_blocks_loop this acc = Some (acc, this)"
  by (auto simp: sub_walk_guard_def sub_blocks_loop.simps [of this])

lemma part_walk_loop:
  "part_walk this tr this' \<Longrightarrow> sub_blocks_loop this acc = Some (acc @ map snd tr, this')"
proof (induction arbitrary: acc rule: part_walk.induct)
  case (out_of_bound this)
  then show ?case by (simp add: sub_blocks_loop_out)
next
  case (unknown_tag this tag)
  then show ?case by (simp add: sub_blocks_loop_unknown)
next
  case (sub_block this tag handler sb this1 tr this')
  from sub_block.IH [of "acc @ [sb]"] sub_block.hyps(1-4) show ?case
    by (simp add: sub_blocks_loop_step)
qed

lemma loop_part_walk:
  "sub_blocks_loop this acc = Some (subs, this') \<Longrightarrow>
     \<exists>tr. part_walk this tr this' \<and> subs = acc @ map snd tr"
proof (induction this acc rule: sub_blocks_loop.induct)
  case (1 this acc)
  show ?case
  proof (cases "sub_walk_guard this")
    case False
    with "1.prems" have "subs = acc" "this' = this" by (simp_all add: sub_blocks_loop_out)
    with False show ?thesis by (auto intro: part_walk.out_of_bound)
  next
    case True
    note t = sub_walk_guard_read [OF True]
    let ?tag = "unat (p_dataView this ! p_offset this)"
    show ?thesis
    proof (cases "subBlockHandlers ?tag")
      case None
      with True t "1.prems" have "subs = acc" "this' = this\<lparr>p_offset := p_offset this + 1\<rparr>"
        by (simp_all add: sub_blocks_loop_unknown)
      moreover from part_walk.unknown_tag [OF True t None]
      have "part_walk this [] (this\<lparr>p_offset := p_offset this + 1\<rparr>)" .
      ultimately show ?thesis by (intro exI [of _ "[]"]) simp
    next
      case (Some handler)
      with True t "1.prems" obtain sb this1
        where h: "handler (this\<lparr>p_offset := p_offset this + 1\<rparr>) = Some (sb, this1)"
          and l: "sub_blocks_loop this1 (acc @ [sb]) = Some (subs, this')"
        by (auto simp: sub_blocks_loop_step split: option.splits)
      from True have g: "p_offset this + pin_block_size this < length (p_dataView this)"
        "\<not> length (p_dataView this) \<le> p_offset this"
        by (simp_all add: sub_walk_guard_def)
      from "1.IH" [OF g t Some h refl l]
      obtain tr where w: "part_walk this1 tr this'" and s: "subs = (acc @ [sb]) @ map snd tr"
        by blast
      from part_walk.sub_block [OF True t Some h w] s show ?thesis by auto
    qed
  qed
qed

lemma part_walk_bound:
  "part_walk this tr this' \<Longrightarrow>
     (\<forall>x\<in>set tr. fst x + pin_block_size this < length (p_dataView this)
                  \<and> fst x < length (p_dataView this))
     \<and> p_dataView this' = p_dataView this \<and> pin_block_size this' = pin_block_size this"
proof (induction rule: part_walk.induct)
  case (out_of_bound this)
  then show ?case by simp
next
  case (unknown_tag this tag)
  then show ?case by simp
next
  case (sub_block this tag handler sb this1 tr this')
  from subBlockHandlers_frame [OF sub_block.hyps(3,4)]
  have f: "p_dataView this1 = p_dataView this" "pin_block_size this1 = pin_block_size this"
    by simp_all
  with sub_block.IH sub_block.hyps(1) show ?case
    by (simp add: sub_walk_guard_def)
qed

lemma part_walk_end:
  "part_walk this tr this' \<Longrightarrow>
     \<not> sub_walk_guard this'
     \<or> (\<exists>prev tag. sub_walk_guard prev
           \<and> getUint8 (p_dataView prev) (p_offset prev) = Some tag
           \<and> subBlockHandlers tag = None
           \<and> this' = prev\<lparr>p_offset := p_offset prev + 1\<rparr>)"
  by (induction rule: part_walk.induct) blast+

lemma parseHeader_iff:
  "parseHeader ((p_init plaintext)\<lparr>cur_block_size := n\<rparr>) = Some (h, this) \<longleftrightarrow>
     header_at plaintext h
     \<and> this = \<lparr>p_dataView = plaintext, p_offset = 26 + part_group_name_size h,
                cur_block_size = n, pin_block_size = 0\<rparr>"
proof
  assume "parseHeader ((p_init plaintext)\<lparr>cur_block_size := n\<rparr>) = Some (h, this)"
  then show "header_at plaintext h
     \<and> this = \<lparr>p_dataView = plaintext, p_offset = 26 + part_group_name_size h,
                cur_block_size = n, pin_block_size = 0\<rparr>"
    by (auto simp: parseHeader_def p_init_def header_at_def Let_def p_readString_def
          Uint8Array_def split: bind_splits if_splits)
next
  assume a: "header_at plaintext h
     \<and> this = \<lparr>p_dataView = plaintext, p_offset = 26 + part_group_name_size h,
                cur_block_size = n, pin_block_size = 0\<rparr>"
  then show "parseHeader ((p_init plaintext)\<lparr>cur_block_size := n\<rparr>) = Some (h, this)"
    by (cases h)
       (auto simp: parseHeader_def p_init_def header_at_def Let_def p_readString_def
          Uint8Array_def add_ac split: if_splits)
qed

text \<open>
  Claim C7. \<^verbatim>\<open>PartDataParser.parse\<close> returns a part exactly when the header can be read
  off the plaintext and the walk over the view succeeds: the header's fields, \<open>part_size\<close>
  among them, are the values at their offsets of the plaintext, the view is the first
  \<open>part_size + 4\<close> bytes of the plaintext, the walk starts behind the group name, and the
  sub-blocks returned are those the walk consumes, in order. The loop of the source and
  the walk of the specification consume the same sub-blocks and end in the same state.
  Over the whole walk, every sub-block is consumed at a cursor for which the cursor plus
  \<open>pin_block_size\<close> and the cursor are below the length of the view, and the walk ends only
  where that bound fails or right after a tag that has no handler. Step by step: outside
  the bound the loop returns what it has, without reading; a tag with no handler ends the
  walk with the sub-blocks found so far; a tag with a handler appends the handler's
  sub-block and goes on from the handler's cursor, or throws with the handler.
\<close>

theorem part_walker_bound:
  "(PartDataParser_parse plaintext t07blockSize = Some pd \<longleftrightarrow>
      header_at plaintext (pd_header pd)
      \<and> (\<exists>tr this'.
            part_walk \<lparr>p_dataView = take (part_size (pd_header pd) + 4) plaintext,
                        p_offset = 26 + part_group_name_size (pd_header pd),
                        cur_block_size = t07blockSize, pin_block_size = 0\<rparr> tr this'
            \<and> sub_blocks pd = map snd tr))
   \<and> (\<forall>hdr this. parseHeader ((p_init plaintext)\<lparr>cur_block_size := t07blockSize\<rparr>) = Some (hdr, this) \<longrightarrow>
        header_at plaintext hdr
        \<and> this = \<lparr>p_dataView = plaintext, p_offset = 26 + part_group_name_size hdr,
                   cur_block_size = t07blockSize, pin_block_size = 0\<rparr>
        \<and> PartDataParser_parse plaintext t07blockSize =
            (case sub_blocks_loop (this\<lparr>p_dataView := take (part_size hdr + 4) plaintext\<rparr>) [] of
               None \<Rightarrow> None
             | Some (subs, this') \<Rightarrow> Some \<lparr>pd_header = hdr, sub_blocks = subs\<rparr>))
   \<and> (\<forall>this acc subs this'.
        sub_blocks_loop this acc = Some (subs, this') \<longleftrightarrow>
          (\<exists>tr. part_walk this tr this' \<and> subs = acc @ map snd tr))
   \<and> (\<forall>this tr this'. part_walk this tr this' \<longrightarrow>
        (\<forall>x\<in>set tr. fst x + pin_block_size this < length (p_dataView this)
                     \<and> fst x < length (p_dataView this))
        \<and> (\<not> sub_walk_guard this'
            \<or> (\<exists>prev tag. sub_walk_guard prev
                  \<and> getUint8 (p_dataView prev) (p_offset prev) = Some tag
                  \<and> subBlockHandlers tag = None
                  \<and> this' = prev\<lparr>p_offset := p_offset prev + 1\<rparr>)))
   \<and> (\<forall>this acc. \<not> sub_walk_guard this \<longrightarrow> sub_blocks_loop this acc = Some (acc, this))
   \<and> (\<forall>this acc subs this'. sub_blocks_loop this acc = Some (subs, this') \<and> subs \<noteq> acc \<longrightarrow>
         sub_walk_guard this)
   \<and> (\<forall>this acc tag. sub_walk_guard this
         \<and> getUint8 (p_dataView this) (p_offset this) = Some tag
         \<and> subBlockHandlers tag = None \<longrightarrow>
         sub_blocks_loop this acc = Some (acc, this\<lparr>p_offset := p_offset this + 1\<rparr>))
   \<and> (\<forall>this acc tag handler. sub_walk_guard this
         \<and> getUint8 (p_dataView this) (p_offset this) = Some tag
         \<and> subBlockHandlers tag = Some handler \<longrightarrow>
         sub_blocks_loop this acc =
           (case handler (this\<lparr>p_offset := p_offset this + 1\<rparr>) of
              None \<Rightarrow> None
            | Some (sb, this1) \<Rightarrow> sub_blocks_loop this1 (acc @ [sb])))"
proof (intro conjI allI impI)
  let ?start = "\<lambda>h. \<lparr>p_dataView = take (part_size h + 4) plaintext,
      p_offset = 26 + part_group_name_size h,
      cur_block_size = t07blockSize, pin_block_size = 0\<rparr>"
  show "PartDataParser_parse plaintext t07blockSize = Some pd \<longleftrightarrow>
      header_at plaintext (pd_header pd)
      \<and> (\<exists>tr this'. part_walk (?start (pd_header pd)) tr this' \<and> sub_blocks pd = map snd tr)"
  proof
    assume "PartDataParser_parse plaintext t07blockSize = Some pd"
    then obtain hdr this subs this' where
      h: "parseHeader ((p_init plaintext)\<lparr>cur_block_size := t07blockSize\<rparr>) = Some (hdr, this)"
      and l: "sub_blocks_loop (this\<lparr>p_dataView := take (4 + part_size hdr) plaintext\<rparr>) []
                = Some (subs, this')"
      and pd: "pd = \<lparr>pd_header = hdr, sub_blocks = subs\<rparr>"
      by (auto simp: PartDataParser_parse_def Let_def split: bind_splits)
    from h have ha: "header_at plaintext hdr"
      and t: "this = \<lparr>p_dataView = plaintext, p_offset = 26 + part_group_name_size hdr,
                cur_block_size = t07blockSize, pin_block_size = 0\<rparr>"
      by (simp_all add: parseHeader_iff)
    from l t have "sub_blocks_loop (?start hdr) [] = Some (subs, this')"
      by (simp add: add.commute)
    from loop_part_walk [OF this] obtain tr where
      "part_walk (?start hdr) tr this'" "subs = map snd tr" by auto
    with ha pd show "header_at plaintext (pd_header pd)
      \<and> (\<exists>tr this'. part_walk (?start (pd_header pd)) tr this' \<and> sub_blocks pd = map snd tr)"
      by auto
  next
    assume a: "header_at plaintext (pd_header pd)
      \<and> (\<exists>tr this'. part_walk (?start (pd_header pd)) tr this' \<and> sub_blocks pd = map snd tr)"
    then obtain tr this' where w: "part_walk (?start (pd_header pd)) tr this'"
      and s: "sub_blocks pd = map snd tr" by blast
    from a have h: "parseHeader ((p_init plaintext)\<lparr>cur_block_size := t07blockSize\<rparr>)
        = Some (pd_header pd, \<lparr>p_dataView = plaintext,
                  p_offset = 26 + part_group_name_size (pd_header pd),
                  cur_block_size = t07blockSize, pin_block_size = 0\<rparr>)"
      by (simp add: parseHeader_iff)
    from part_walk_loop [OF w, of "[]"] s
    have l: "sub_blocks_loop (?start (pd_header pd)) [] = Some (sub_blocks pd, this')" by simp
    have "\<lparr>pd_header = pd_header pd, sub_blocks = sub_blocks pd\<rparr> = pd" by simp
    with h l show "PartDataParser_parse plaintext t07blockSize = Some pd"
      by (simp add: PartDataParser_parse_def Let_def add.commute)
  qed
next
  fix hdr this
  assume h: "parseHeader ((p_init plaintext)\<lparr>cur_block_size := t07blockSize\<rparr>) = Some (hdr, this)"
  then show "header_at plaintext hdr"
    and "this = \<lparr>p_dataView = plaintext, p_offset = 26 + part_group_name_size hdr,
                   cur_block_size = t07blockSize, pin_block_size = 0\<rparr>"
    by (simp_all add: parseHeader_iff)
  from h show "PartDataParser_parse plaintext t07blockSize =
        (case sub_blocks_loop (this\<lparr>p_dataView := take (part_size hdr + 4) plaintext\<rparr>) [] of
           None \<Rightarrow> None
         | Some (subs, this') \<Rightarrow> Some \<lparr>pd_header = hdr, sub_blocks = subs\<rparr>)"
    by (simp add: PartDataParser_parse_def Let_def add.commute split: option.splits)
next
  fix this acc subs this'
  show "sub_blocks_loop this acc = Some (subs, this') \<longleftrightarrow>
          (\<exists>tr. part_walk this tr this' \<and> subs = acc @ map snd tr)"
    using loop_part_walk [of this acc subs this'] part_walk_loop [of this _ this' acc] by auto
next
  fix this tr this'
  assume w: "part_walk this tr this'"
  from part_walk_bound [OF w]
  show "\<forall>x\<in>set tr. fst x + pin_block_size this < length (p_dataView this)
                     \<and> fst x < length (p_dataView this)" by simp
  from part_walk_end [OF w]
  show "\<not> sub_walk_guard this'
            \<or> (\<exists>prev tag. sub_walk_guard prev
                  \<and> getUint8 (p_dataView prev) (p_offset prev) = Some tag
                  \<and> subBlockHandlers tag = None
                  \<and> this' = prev\<lparr>p_offset := p_offset prev + 1\<rparr>)" .
next
  fix this acc
  assume "\<not> sub_walk_guard this"
  then show "sub_blocks_loop this acc = Some (acc, this)" by (rule sub_blocks_loop_out)
next
  fix this acc subs this'
  assume "sub_blocks_loop this acc = Some (subs, this') \<and> subs \<noteq> acc"
  then show "sub_walk_guard this"
    using sub_blocks_loop_out [of this acc] by auto
next
  fix this acc tag
  assume "sub_walk_guard this \<and> getUint8 (p_dataView this) (p_offset this) = Some tag
         \<and> subBlockHandlers tag = None"
  then show "sub_blocks_loop this acc = Some (acc, this\<lparr>p_offset := p_offset this + 1\<rparr>)"
    by (simp add: sub_blocks_loop_unknown)
next
  fix this acc tag handler
  assume "sub_walk_guard this \<and> getUint8 (p_dataView this) (p_offset this) = Some tag
         \<and> subBlockHandlers tag = Some handler"
  then show "sub_blocks_loop this acc =
           (case handler (this\<lparr>p_offset := p_offset this + 1\<rparr>) of
              None \<Rightarrow> None
            | Some (sb, this1) \<Rightarrow> sub_blocks_loop this1 (acc @ [sb]))"
    by (simp add: sub_blocks_loop_step)
qed

theorem part_walker_bound_witness:
  "header_at part_example header_example
   \<and> part_walk (view_at 26) [(26, line_example)] (view_at 60)
   \<and> PartDataParser_parse part_example 70
        = Some \<lparr>pd_header = header_example, sub_blocks = [line_example]\<rparr>
   \<and> parseHeader ((p_init part_example)\<lparr>cur_block_size := 70\<rparr>)
        = Some (header_example, \<lparr>p_dataView = part_example, p_offset = 26, cur_block_size = 70,
                                  pin_block_size = 0\<rparr>)
   \<and> sub_blocks_loop (view_at 26) [] = Some ([line_example], view_at 60)
   \<and> 26 + pin_block_size (view_at 26) < length (p_dataView (view_at 26))
   \<and> (\<exists>prev tag. sub_walk_guard prev
          \<and> getUint8 (p_dataView prev) (p_offset prev) = Some tag
          \<and> subBlockHandlers tag = None
          \<and> view_at 60 = prev\<lparr>p_offset := p_offset prev + 1\<rparr>)
   \<and> sub_blocks_loop (view_at 66) [line_example] = Some ([line_example], view_at 66)
   \<and> sub_walk_guard (view_at 26)
   \<and> sub_blocks_loop (view_at 59) [line_example] = Some ([line_example], view_at 60)
   \<and> sub_blocks_loop (view_at 26) [] = sub_blocks_loop (view_at 59) [line_example]"
proof -
  note inst = part_walker_bound [where plaintext = part_example and ?t07blockSize = 70
      and pd = "\<lparr>pd_header = header_example, sub_blocks = [line_example]\<rparr>"]
  note A = inst [THEN conjunct1]
  note H = inst [THEN conjunct2, THEN conjunct1, rule_format]
  note B = inst [THEN conjunct2, THEN conjunct2, THEN conjunct1, rule_format]
  note C = inst [THEN conjunct2, THEN conjunct2, THEN conjunct2, THEN conjunct1, rule_format]
  note D = inst [THEN conjunct2, THEN conjunct2, THEN conjunct2, THEN conjunct2, THEN conjunct1,
      rule_format]
  note E = inst [THEN conjunct2, THEN conjunct2, THEN conjunct2, THEN conjunct2, THEN conjunct2,
      THEN conjunct1, rule_format]
  note F = inst [THEN conjunct2, THEN conjunct2, THEN conjunct2, THEN conjunct2, THEN conjunct2,
      THEN conjunct2, THEN conjunct1, rule_format]
  note G = inst [THEN conjunct2, THEN conjunct2, THEN conjunct2, THEN conjunct2, THEN conjunct2,
      THEN conjunct2, THEN conjunct2, rule_format]
  have ha: "header_at part_example header_example"
    by (simp add: header_at_def header_example_def part_example_def getUint32_def getUint8_def
          nth_append)
  have g26: "sub_walk_guard (view_at 26)" and g59: "sub_walk_guard (view_at 59)"
    and g60: "sub_walk_guard (view_at 60)" and g66: "\<not> sub_walk_guard (view_at 66)"
    by (simp_all add: sub_walk_guard_def view_at_def part_example_def)
  have t26: "getUint8 (p_dataView (view_at 26)) (p_offset (view_at 26)) = Some 5"
    and t59: "getUint8 (p_dataView (view_at 59)) (p_offset (view_at 59)) = Some 255"
    by (simp_all add: view_at_def part_example_def getUint8_def nth_append)
  have h5: "subBlockHandlers 5 = Some parseSubType05" and h255: "subBlockHandlers 255 = None"
    by (simp_all add: subBlockHandlers_def)
  have l: "parseSubType05 ((view_at 26)\<lparr>p_offset := p_offset (view_at 26) + 1\<rparr>)
             = Some (line_example, view_at 59)"
    by (simp add: parseSubType05_def view_at_def part_example_def line_example_def getUint32_def
          XY_SCALE_def Let_def nth_append)
  have e: "(view_at 59)\<lparr>p_offset := p_offset (view_at 59) + 1\<rparr> = view_at 60"
    by (simp add: view_at_def)
  have w59: "part_walk (view_at 59) [] (view_at 60)"
    using part_walk.unknown_tag [OF g59 t59 h255] e by simp
  have w: "part_walk (view_at 26) [(26, line_example)] (view_at 60)"
    using part_walk.sub_block [OF g26 t26 h5 l w59] by (simp add: view_at_def)
  have s: "\<lparr>p_dataView = take (part_size header_example + 4) part_example,
             p_offset = 26 + part_group_name_size header_example,
             cur_block_size = 70, pin_block_size = 0\<rparr> = view_at 26"
    by (simp add: header_example_def view_at_def)
  have 1: "PartDataParser_parse part_example 70
        = Some \<lparr>pd_header = header_example, sub_blocks = [line_example]\<rparr>"
    using A ha w s by auto
  have ph: "parseHeader ((p_init part_example)\<lparr>cur_block_size := 70\<rparr>)
        = Some (header_example, \<lparr>p_dataView = part_example, p_offset = 26, cur_block_size = 70,
                                  pin_block_size = 0\<rparr>)"
    by (simp add: part_eval part_example_def header_example_def)
  note H' = H [OF ph]
  have 2: "sub_blocks_loop (view_at 26) [] = Some ([line_example], view_at 60)"
    using B [of "view_at 26" "[]" "[line_example]" "view_at 60"] w by auto
  from C [OF w] have 3: "26 + pin_block_size (view_at 26) < length (p_dataView (view_at 26))"
    and "\<not> sub_walk_guard (view_at 60)
            \<or> (\<exists>prev tag. sub_walk_guard prev
                  \<and> getUint8 (p_dataView prev) (p_offset prev) = Some tag
                  \<and> subBlockHandlers tag = None
                  \<and> view_at 60 = prev\<lparr>p_offset := p_offset prev + 1\<rparr>)"
    by simp_all
  with g60 have 4: "\<exists>prev tag. sub_walk_guard prev
                  \<and> getUint8 (p_dataView prev) (p_offset prev) = Some tag
                  \<and> subBlockHandlers tag = None
                  \<and> view_at 60 = prev\<lparr>p_offset := p_offset prev + 1\<rparr>"
    by blast
  have 5: "sub_blocks_loop (view_at 66) [line_example] = Some ([line_example], view_at 66)"
    by (rule D [OF g66])
  have 6: "sub_walk_guard (view_at 26)"
    using E [of "view_at 26" "[]" "[line_example]" "view_at 60"] 2 by simp
  have 7: "sub_blocks_loop (view_at 59) [line_example] = Some ([line_example], view_at 60)"
    using F [of "view_at 59" 255 "[line_example]"] g59 t59 h255 e by simp
  have 8: "sub_blocks_loop (view_at 26) [] = sub_blocks_loop (view_at 59) [line_example]"
    using G [of "view_at 26" 5 parseSubType05 "[]"] g26 t26 h5 l by simp
  from ha w 1 ph 2 3 4 5 6 7 8 show ?thesis by blast
qed

section \<open>Strings\<close>

lemma utf8_decode_ascii:
  "\<forall>b\<in>set bs. b < 128 \<Longrightarrow> utf8_decode u_init bs = bs"
  by (induction bs) (simp_all add: u_init_def utf8_lead_def)

lemma TextDecoder_decode_ascii:
  assumes "\<forall>b\<in>set bytes. unat b < 128"
  shows "TextDecoder_decode bytes = map unat bytes"
proof -
  have "utf8_decode u_init (map unat bytes) = map unat bytes"
    using assms by (intro utf8_decode_ascii) auto
  moreover have "strip_bom (map unat bytes) = map unat bytes"
    using assms by (cases bytes) (auto simp: strip_bom_def)
  ultimately show ?thesis by (simp add: TextDecoder_decode_def)
qed

lemma ascii_lengths:
  assumes "\<forall>c\<in>set s. c < 128"
  shows "utf16_length s = length s \<and> utf8_length s = length s"
  using assms by (induction s) (simp_all add: utf16_length_def utf8_length_def)

definition ascii_bytes :: "byte list \<Rightarrow> bool" where
  "ascii_bytes bytes \<longleftrightarrow> (\<forall>b\<in>set bytes. unat b < 128)"

text \<open>
  Claim C8, as amended. Every string field (via text, text body, part group name, label,
  pin name) is what \<^verbatim>\<open>readString\<close> returns for the \<open>u32\<close> size read in the four bytes
  before the string. For a size \<open>n > 0\<close> within the buffer, \<^verbatim>\<open>readString\<close> returns the
  UTF-8 decoding of exactly the next \<open>n\<close> bytes and moves the cursor by \<open>n\<close>; the decoding
  replaces ill-formed sequences, so the length of the string equals \<open>n\<close> when all \<open>n\<close>
  bytes are ASCII. A size of 0 yields the empty string without reading any bytes.
\<close>

theorem string_fields:
  "readString this 0 = Some ([], this)
   \<and> p_readString pthis 0 = Some ([], pthis)
   \<and> (0 < n \<and> offset this + n \<le> length (dataView this) \<longrightarrow>
        readString this n =
          Some (TextDecoder_decode (take n (drop (offset this) (dataView this))),
                this\<lparr>offset := offset this + n\<rparr>)
        \<and> length (take n (drop (offset this) (dataView this))) = n)
   \<and> (0 < n \<and> p_offset pthis + n \<le> length (p_dataView pthis) \<longrightarrow>
        p_readString pthis n =
          Some (TextDecoder_decode (take n (drop (p_offset pthis) (p_dataView pthis))),
                pthis\<lparr>p_offset := p_offset pthis + n\<rparr>)
        \<and> length (take n (drop (p_offset pthis) (p_dataView pthis))) = n)
   \<and> (\<forall>bytes. ascii_bytes bytes \<longrightarrow>
        TextDecoder_decode bytes = map unat bytes
        \<and> utf16_length (TextDecoder_decode bytes) = length bytes
        \<and> utf8_length (TextDecoder_decode bytes) = length bytes)
   \<and> (\<forall>v this'. parseType02 this = Some (Some (VIA v), this') \<longrightarrow>
        (\<exists>len. getUint32 (dataView this) (offset this + 32) = Some len
           \<and> readString (this\<lparr>offset := offset this + 36\<rparr>) len = Some (via_text v, this')))
   \<and> (\<forall>t this'. parseType06 this = Some (Some (TEXT t), this') \<longrightarrow>
        getUint32 (dataView this) (offset this + 30) = Some (text_text_length t)
        \<and> readString (this\<lparr>offset := offset this + 34\<rparr>) (text_text_length t)
            = Some (text_text t, this'))
   \<and> (\<forall>h pthis'. parseHeader pthis = Some (h, pthis') \<longrightarrow>
        getUint32 (p_dataView pthis) (p_offset pthis + 22) = Some (part_group_name_size h)
        \<and> p_readString (pthis\<lparr>p_offset := p_offset pthis + 26\<rparr>) (part_group_name_size h)
            = Some (part_group_name h, pthis'))
   \<and> (\<forall>l pthis'. parseSubType06 pthis = Some (Sub06 l, pthis') \<longrightarrow>
        getUint32 (p_dataView pthis) (p_offset pthis + 30) = Some (s06_label_size l)
        \<and> p_readString (pthis\<lparr>p_offset := p_offset pthis + 34\<rparr>) (s06_label_size l)
            = Some (s06_label l, pthis'))
   \<and> (\<forall>p pthis'. read_pin pthis = Some (p, pthis') \<longrightarrow>
        getUint32 (p_dataView pthis) (p_offset pthis + 20) = Some (pin_name_size p)
        \<and> (\<exists>pthis1. p_readString (pthis\<lparr>p_offset := p_offset pthis + 24\<rparr>) (pin_name_size p)
            = Some (pin_name p, pthis1)))"
proof (intro conjI allI impI)
  show "readString this 0 = Some ([], this)" by (simp add: readString_def)
  show "p_readString pthis 0 = Some ([], pthis)" by (simp add: p_readString_def)
next
  assume "0 < n \<and> offset this + n \<le> length (dataView this)"
  then show "readString this n =
          Some (TextDecoder_decode (take n (drop (offset this) (dataView this))),
                this\<lparr>offset := offset this + n\<rparr>)"
    and "length (take n (drop (offset this) (dataView this))) = n"
    by (auto simp: readString_def Uint8Array_def)
next
  assume "0 < n \<and> p_offset pthis + n \<le> length (p_dataView pthis)"
  then show "p_readString pthis n =
          Some (TextDecoder_decode (take n (drop (p_offset pthis) (p_dataView pthis))),
                pthis\<lparr>p_offset := p_offset pthis + n\<rparr>)"
    and "length (take n (drop (p_offset pthis) (p_dataView pthis))) = n"
    by (auto simp: p_readString_def Uint8Array_def)
next
  fix bytes assume a: "ascii_bytes bytes"
  then have d: "TextDecoder_decode bytes = map unat bytes"
    by (simp add: ascii_bytes_def TextDecoder_decode_ascii)
  from a have "\<forall>c\<in>set (map unat bytes). c < 128" by (simp add: ascii_bytes_def)
  from ascii_lengths [OF this] d
  show "TextDecoder_decode bytes = map unat bytes"
    and "utf16_length (TextDecoder_decode bytes) = length bytes"
    and "utf8_length (TextDecoder_decode bytes) = length bytes"
    by simp_all
next
  fix v this' assume "parseType02 this = Some (Some (VIA v), this')"
  then show "\<exists>len. getUint32 (dataView this) (offset this + 32) = Some len
           \<and> readString (this\<lparr>offset := offset this + 36\<rparr>) len = Some (via_text v, this')"
    by (auto simp: parseType02_def Let_def add_ac split: bind_splits)
next
  fix t this' assume a: "parseType06 this = Some (Some (TEXT t), this')"
  then show "getUint32 (dataView this) (offset this + 30) = Some (text_text_length t)"
    and "readString (this\<lparr>offset := offset this + 34\<rparr>) (text_text_length t)
            = Some (text_text t, this')"
    by (auto simp: parseType06_def Let_def add_ac split: bind_splits)
next
  fix h pthis' assume a: "parseHeader pthis = Some (h, pthis')"
  then show "getUint32 (p_dataView pthis) (p_offset pthis + 22) = Some (part_group_name_size h)"
    and "p_readString (pthis\<lparr>p_offset := p_offset pthis + 26\<rparr>) (part_group_name_size h)
            = Some (part_group_name h, pthis')"
    by (auto simp: parseHeader_def Let_def add_ac p_readString_def split: bind_splits if_splits)
next
  fix l pthis' assume a: "parseSubType06 pthis = Some (Sub06 l, pthis')"
  then show "getUint32 (p_dataView pthis) (p_offset pthis + 30) = Some (s06_label_size l)"
    and "p_readString (pthis\<lparr>p_offset := p_offset pthis + 34\<rparr>) (s06_label_size l)
            = Some (s06_label l, pthis')"
    by (auto simp: parseSubType06_def Let_def add_ac p_readString_def split: bind_splits if_splits)
next
  fix p pthis' assume a: "read_pin pthis = Some (p, pthis')"
  then show "getUint32 (p_dataView pthis) (p_offset pthis + 20) = Some (pin_name_size p)"
    and "\<exists>pthis1. p_readString (pthis\<lparr>p_offset := p_offset pthis + 24\<rparr>) (pin_name_size p)
            = Some (pin_name p, pthis1)"
    by (auto simp: read_pin_def Let_def add_ac p_readString_def split: bind_splits if_splits)
qed

text \<open>
  The claim as stated fails on a VIA block whose text has size 3 and bytes \<open>C3 A9 FF\<close>:
  the string has two code points, two UTF-16 code units and five bytes in UTF-8.
\<close>

definition via_example :: "byte list" where
  "via_example = replicate 32 0 @ [3, 0, 0, 0, 0xC3, 0xA9, 0xFF]"

theorem string_fields_counterexample:
  "parseType02 \<lparr>dataView = via_example, offset = 0, mainDataBlocksSize = 39\<rparr>
     = Some (Some (VIA \<lparr>via_x = 0, via_y = 0, via_outer_radius = 0, via_inner_radius = 0,
                        via_layer_a_index = 0, via_layer_b_index = 0, via_net_index = 0,
                        via_text = [233, 65533]\<rparr>),
             \<lparr>dataView = via_example, offset = 39, mainDataBlocksSize = 39\<rparr>)
   \<and> getUint32 via_example 32 = Some 3
   \<and> utf16_length [233, 65533] = 2 \<and> utf8_length [233, 65533] = 5"
  by (simp add: parseType02_def getUint32_def getInt32_def readString_def Uint8Array_def
        TextDecoder_decode_def strip_bom_def utf8_lead_def u_init_def XY_SCALE_def Let_def
        nth_append via_example_def utf16_length_def utf8_length_def)

text \<open>Examples whose strings are the two ASCII bytes \<open>65 66\<close>.\<close>

definition name_state :: RawPCBParser where
  "name_state = \<lparr>dataView = [65, 66], offset = 0, mainDataBlocksSize = 0\<rparr>"

definition name_pstate :: PartDataParser where
  "name_pstate = \<lparr>p_dataView = [65, 66], p_offset = 0, cur_block_size = 0, pin_block_size = 0\<rparr>"

definition via_state :: RawPCBParser where
  "via_state = \<lparr>dataView = replicate 32 0 @ [2, 0, 0, 0, 65, 66], offset = 0,
      mainDataBlocksSize = 38\<rparr>"

definition via_ascii :: via_block where
  "via_ascii = \<lparr>via_x = 0, via_y = 0, via_outer_radius = 0, via_inner_radius = 0,
      via_layer_a_index = 0, via_layer_b_index = 0, via_net_index = 0, via_text = [65, 66]\<rparr>"

definition text_state :: RawPCBParser where
  "text_state = \<lparr>dataView = replicate 30 0 @ [2, 0, 0, 0, 65, 66], offset = 0,
      mainDataBlocksSize = 36\<rparr>"

definition text_ascii :: text_block where
  "text_ascii = \<lparr>text_unknown_1 = 0, text_pos_x = 0, text_pos_y = 0, text_text_size = 0,
      text_divider = 0, text_empty = 0, text_one = 0, text_text_length = 2,
      text_text = [65, 66]\<rparr>"

definition header_state :: PartDataParser where
  "header_state = \<lparr>p_dataView = replicate 22 0 @ [2, 0, 0, 0, 65, 66], p_offset = 0,
      cur_block_size = 28, pin_block_size = 0\<rparr>"

definition header_ascii :: header where
  "header_ascii = \<lparr>part_size = 0, part_x = 0, part_y = 0, part_rotation = 0, visibility = 0,
      part_group_name_size = 2, part_group_name = [65, 66]\<rparr>"

definition label_state :: PartDataParser where
  "label_state = \<lparr>p_dataView = replicate 30 0 @ [2, 0, 0, 0, 65, 66], p_offset = 0,
      cur_block_size = 36, pin_block_size = 0\<rparr>"

definition label_ascii :: sub_type_06 where
  "label_ascii = \<lparr>s06_block_size = 0, s06_layer = 0, s06_x = 0, s06_y = 0, s06_font_size = 0,
      s06_font_scale = 0, s06_font_rotation = 0, s06_visibility = 0, s06_label_size = 2,
      s06_label = [65, 66]\<rparr>"

definition pin_state :: PartDataParser where
  "pin_state = \<lparr>p_dataView = replicate 20 0 @ [2, 0, 0, 0, 65, 66] @ replicate 36 0,
      p_offset = 0, cur_block_size = 62, pin_block_size = 0\<rparr>"

definition pin_ascii :: pin where
  "pin_ascii = \<lparr>pin_un1 = 0, pin_x = 0, pin_y = 0, inner_diameter = 0, pin_rotation = 0,
      pin_name_size = 2, pin_name = [65, 66], pin_height = 0, pin_width = 0, pin_shape = 0,
      pin_net_index = 0, isThruHole_pin = False\<rparr>"

theorem string_fields_witness:
  "readString name_state 2 = Some (TextDecoder_decode [65, 66], name_state\<lparr>offset := 2\<rparr>)
   \<and> p_readString name_pstate 2 = Some (TextDecoder_decode [65, 66], name_pstate\<lparr>p_offset := 2\<rparr>)
   \<and> ascii_bytes [65, 66] \<and> TextDecoder_decode [65, 66] = [65, 66]
   \<and> utf16_length (TextDecoder_decode [65, 66]) = 2 \<and> utf8_length (TextDecoder_decode [65, 66]) = 2
   \<and> parseType02 via_state = Some (Some (VIA via_ascii), via_state\<lparr>offset := 38\<rparr>)
   \<and> (\<exists>len. getUint32 (dataView via_state) 32 = Some len
          \<and> readString (via_state\<lparr>offset := 36\<rparr>) len
               = Some (via_text via_ascii, via_state\<lparr>offset := 38\<rparr>))
   \<and> parseType06 text_state = Some (Some (TEXT text_ascii), text_state\<lparr>offset := 36\<rparr>)
   \<and> readString (text_state\<lparr>offset := 34\<rparr>) 2 = Some (text_text text_ascii, text_state\<lparr>offset := 36\<rparr>)
   \<and> parseHeader header_state = Some (header_ascii, header_state\<lparr>p_offset := 28\<rparr>)
   \<and> p_readString (header_state\<lparr>p_offset := 26\<rparr>) 2
        = Some (part_group_name header_ascii, header_state\<lparr>p_offset := 28\<rparr>)
   \<and> parseSubType06 label_state = Some (Sub06 label_ascii, label_state\<lparr>p_offset := 36\<rparr>)
   \<and> p_readString (label_state\<lparr>p_offset := 34\<rparr>) 2
        = Some (s06_label label_ascii, label_state\<lparr>p_offset := 36\<rparr>)
   \<and> read_pin pin_state = Some (pin_ascii, pin_state\<lparr>p_offset := 75\<rparr>)
   \<and> (\<exists>pthis1. p_readString (pin_state\<lparr>p_offset := 24\<rparr>) 2 = Some (pin_name pin_ascii, pthis1))"
proof -
  note inst = string_fields [where n = 2]
  have 1: "readString name_state 2 = Some (TextDecoder_decode [65, 66], name_state\<lparr>offset := 2\<rparr>)"
    using inst [where this = name_state, THEN conjunct2, THEN conjunct2, THEN conjunct1]
    by (simp add: name_state_def)
  have 2: "p_readString name_pstate 2 = Some (TextDecoder_decode [65, 66], name_pstate\<lparr>p_offset := 2\<rparr>)"
    using inst [where pthis = name_pstate, THEN conjunct2, THEN conjunct2, THEN conjunct2, THEN conjunct1]
    by (simp add: name_pstate_def)
  have a: "ascii_bytes [65, 66]" by (simp add: ascii_bytes_def)
  have m: "map unat [65, 66 :: byte] = [65, 66]" "length [65, 66 :: byte] = 2" by simp_all
  have 3: "TextDecoder_decode [65, 66] = [65, 66]
      \<and> utf16_length (TextDecoder_decode [65, 66]) = 2 \<and> utf8_length (TextDecoder_decode [65, 66]) = 2"
    using inst [THEN conjunct2, THEN conjunct2, THEN conjunct2, THEN conjunct2, THEN conjunct1,
        rule_format, OF a]
    unfolding m .
  have v: "parseType02 via_state = Some (Some (VIA via_ascii), via_state\<lparr>offset := 38\<rparr>)"
    by (simp add: parseType02_def string_eval via_state_def via_ascii_def)
  have 4: "\<exists>len. getUint32 (dataView via_state) 32 = Some len
          \<and> readString (via_state\<lparr>offset := 36\<rparr>) len
               = Some (via_text via_ascii, via_state\<lparr>offset := 38\<rparr>)"
    using inst [where this = via_state, THEN conjunct2, THEN conjunct2, THEN conjunct2,
        THEN conjunct2, THEN conjunct2, THEN conjunct1, rule_format, OF v]
    by (simp add: via_state_def)
  have t: "parseType06 text_state = Some (Some (TEXT text_ascii), text_state\<lparr>offset := 36\<rparr>)"
    by (simp add: parseType06_def string_eval text_state_def text_ascii_def)
  have 5: "readString (text_state\<lparr>offset := 34\<rparr>) 2
      = Some (text_text text_ascii, text_state\<lparr>offset := 36\<rparr>)"
    using inst [where this = text_state, THEN conjunct2, THEN conjunct2, THEN conjunct2,
        THEN conjunct2, THEN conjunct2, THEN conjunct2, THEN conjunct1, rule_format, OF t]
    by (simp add: text_state_def text_ascii_def)
  have h: "parseHeader header_state = Some (header_ascii, header_state\<lparr>p_offset := 28\<rparr>)"
    by (simp add: parseHeader_def string_eval header_state_def header_ascii_def)
  have 6: "p_readString (header_state\<lparr>p_offset := 26\<rparr>) 2
        = Some (part_group_name header_ascii, header_state\<lparr>p_offset := 28\<rparr>)"
    using inst [where pthis = header_state, THEN conjunct2, THEN conjunct2, THEN conjunct2,
        THEN conjunct2, THEN conjunct2, THEN conjunct2, THEN conjunct2, THEN conjunct1,
        rule_format, OF h]
    by (simp add: header_state_def header_ascii_def)
  have l: "parseSubType06 label_state = Some (Sub06 label_ascii, label_state\<lparr>p_offset := 36\<rparr>)"
    by (simp add: parseSubType06_def string_eval label_state_def label_ascii_def)
  have 7: "p_readString (label_state\<lparr>p_offset := 34\<rparr>) 2
        = Some (s06_label label_ascii, label_state\<lparr>p_offset := 36\<rparr>)"
    using inst [where pthis = label_state, THEN conjunct2, THEN conjunct2, THEN conjunct2,
        THEN conjunct2, THEN conjunct2, THEN conjunct2, THEN conjunct2, THEN conjunct2,
        THEN conjunct1, rule_format, OF l]
    by (simp add: label_state_def label_ascii_def)
  have p: "read_pin pin_state = Some (pin_ascii, pin_state\<lparr>p_offset := 75\<rparr>)"
    by (simp add: read_pin_def string_eval pin_state_def pin_ascii_def)
  have 8: "\<exists>pthis1. p_readString (pin_state\<lparr>p_offset := 24\<rparr>) 2 = Some (pin_name pin_ascii, pthis1)"
    using inst [where pthis = pin_state, THEN conjunct2, THEN conjunct2, THEN conjunct2,
        THEN conjunct2, THEN conjunct2, THEN conjunct2, THEN conjunct2, THEN conjunct2,
        THEN conjunct2, rule_format, OF p]
    by (simp add: pin_state_def pin_ascii_def)
  from 1 2 a 3 v 4 t 5 h 6 l 7 p 8 show ?thesis by blast
qed

section \<open>Pins\<close>

text \<open>
  An example payload: a header with \<open>part_size = 87\<close>, a pin array (tag 9) at offset 26
  with \<open>block_size = 0\<close>, and one pin whose \<open>inner_diameter\<close> is 5.
\<close>

definition pin_array_example :: "byte list" where
  "pin_array_example =
     [87, 0, 0, 0] @ replicate 22 0 @ [9] @ [0, 0, 0, 0] @ replicate 12 0 @ [5, 0, 0, 0]
     @ replicate 44 0"

definition pin_example :: pin where
  "pin_example = \<lparr>pin_un1 = 0, pin_x = 0, pin_y = 0, inner_diameter = 5, pin_rotation = 0,
      pin_name_size = 0, pin_name = [], pin_height = 0, pin_width = 0, pin_shape = 0,
      pin_net_index = 0, isThruHole_pin = True\<rparr>"

lemma read_pin_thru_hole:
  "read_pin this = Some (p, this') \<Longrightarrow> isThruHole_pin p = (inner_diameter p \<noteq> 0)"
  by (auto simp: read_pin_def Let_def split: bind_splits if_splits)

lemma pins_loop_thru_hole:
  "pins_loop this n acc = Some (ps, this') \<Longrightarrow>
   \<forall>p \<in> set acc. isThruHole_pin p = (inner_diameter p \<noteq> 0) \<Longrightarrow>
   \<forall>p \<in> set ps. isThruHole_pin p = (inner_diameter p \<noteq> 0)"
proof (induction this n acc rule: pins_loop.induct)
  case (1 this blockSize acc)
  show ?case
  proof (cases "p_offset this + blockSize \<le> cur_block_size this")
    case False
    with "1.prems" show ?thesis by (simp add: pins_loop.simps)
  next
    case True
    with "1.prems"(1) obtain p this1 where r: "read_pin this = Some (p, this1)"
      and l: "pins_loop this1 blockSize (acc @ [p]) = Some (ps, this')"
      by (auto simp: pins_loop.simps [of this] split: option.splits)
    from read_pin_thru_hole [OF r] "1.prems"(2)
    have "\<forall>q \<in> set (acc @ [p]). isThruHole_pin q = (inner_diameter q \<noteq> 0)" by simp
    from "1.IH" [OF True r refl l this] show ?thesis .
  qed
qed

lemma parseSubType09_thru_hole:
  assumes "parseSubType09 this = Some (sb, this')"
  shows "\<exists>blk. sb = Sub09 blk \<and> (\<forall>p \<in> set (pins blk). isThruHole_pin p = (inner_diameter p \<noteq> 0))"
  using assms
  by (auto simp: parseSubType09_def Let_def split: bind_splits dest!: pins_loop_thru_hole)

lemma handler_not_Sub09:
  "parseSubType01 this = Some (sb, this') \<Longrightarrow> sb \<noteq> Sub09 blk"
  "parseSubType05 this = Some (sb, this') \<Longrightarrow> sb \<noteq> Sub09 blk"
  "parseSubType06 this = Some (sb, this') \<Longrightarrow> sb \<noteq> Sub09 blk"
  by (auto simp: parseSubType01_def parseSubType05_def parseSubType06_def Let_def split: bind_splits)

lemma subBlockHandlers_thru_hole:
  assumes "subBlockHandlers tag = Some handler" and "handler this = Some (Sub09 blk, this')"
  shows "\<forall>p \<in> set (pins blk). isThruHole_pin p = (inner_diameter p \<noteq> 0)"
  using assms
  by (auto simp: subBlockHandlers_def split: if_splits
           dest: handler_not_Sub09 dest!: parseSubType09_thru_hole)

lemma sub_blocks_loop_thru_hole:
  "sub_blocks_loop this acc = Some (subs, this') \<Longrightarrow>
   \<forall>blk. Sub09 blk \<in> set acc \<longrightarrow> (\<forall>p \<in> set (pins blk). isThruHole_pin p = (inner_diameter p \<noteq> 0)) \<Longrightarrow>
   \<forall>blk. Sub09 blk \<in> set subs \<longrightarrow> (\<forall>p \<in> set (pins blk). isThruHole_pin p = (inner_diameter p \<noteq> 0))"
proof (induction this acc rule: sub_blocks_loop.induct)
  case (1 this acc)
  let ?g = "p_offset this + pin_block_size this < length (p_dataView this)"
  show ?case
  proof (cases "?g \<and> \<not> length (p_dataView this) \<le> p_offset this")
    case False
    with "1.prems" show ?thesis by (auto simp: sub_blocks_loop.simps [of this])
  next
    case True
    then obtain tag where t: "getUint8 (p_dataView this) (p_offset this) = Some tag"
      by (auto simp: getUint8_def)
    show ?thesis
    proof (cases "subBlockHandlers tag")
      case None
      with True t "1.prems" show ?thesis by (auto simp: sub_blocks_loop.simps [of this])
    next
      case (Some handler)
      with True t "1.prems"(1) obtain sb this1
        where h: "handler (this\<lparr>p_offset := p_offset this + 1\<rparr>) = Some (sb, this1)"
          and l: "sub_blocks_loop this1 (acc @ [sb]) = Some (subs, this')"
        by (auto simp: sub_blocks_loop.simps [of this] split: option.splits)
      have "\<forall>blk. Sub09 blk \<in> set (acc @ [sb]) \<longrightarrow>
              (\<forall>p \<in> set (pins blk). isThruHole_pin p = (inner_diameter p \<noteq> 0))"
        using "1.prems"(2) subBlockHandlers_thru_hole [OF Some] h by auto
      from "1.IH" [OF _ _ t Some h refl l this] True show ?thesis by simp
    qed
  qed
qed

text \<open>
  Claim C9. For every pin of a pin-array sub-block (sub-tag 9) that
  \<^verbatim>\<open>PartDataParser.parse\<close> returns, \<open>isThruHole_pin\<close> holds if and only if
  \<open>inner_diameter\<close> is not zero.
\<close>

theorem pin_is_thru_hole:
  assumes "PartDataParser_parse arrayBuffer t07blockSize = Some pd"
    and "Sub09 blk \<in> set (sub_blocks pd)" and "p \<in> set (pins blk)"
  shows "isThruHole_pin p \<longleftrightarrow> inner_diameter p \<noteq> 0"
proof -
  from assms(1) obtain this subs this' where
    l: "sub_blocks_loop this [] = Some (subs, this')" and pd: "sub_blocks pd = subs"
    by (auto simp: PartDataParser_parse_def Let_def split: bind_splits)
  from sub_blocks_loop_thru_hole [OF l] assms(2,3) pd show ?thesis by auto
qed

theorem pin_is_thru_hole_witness:
  "PartDataParser_parse pin_array_example 96 =
     Some \<lparr>pd_header = \<lparr>part_size = 87, part_x = 0, part_y = 0, part_rotation = 0,
        visibility = 0, part_group_name_size = 0, part_group_name = []\<rparr>,
        sub_blocks = [Sub09 \<lparr>s09_block_size = 0, pins = [pin_example]\<rparr>]\<rparr>
   \<and> inner_diameter pin_example = 5
   \<and> (isThruHole_pin pin_example \<longleftrightarrow> inner_diameter pin_example \<noteq> 0)"
proof -
  let ?blk = "\<lparr>s09_block_size = 0, pins = [pin_example]\<rparr>"
  have e: "PartDataParser_parse pin_array_example 96 =
     Some \<lparr>pd_header = \<lparr>part_size = 87, part_x = 0, part_y = 0, part_rotation = 0,
        visibility = 0, part_group_name_size = 0, part_group_name = []\<rparr>,
        sub_blocks = [Sub09 ?blk]\<rparr>"
    by (simp add: part_eval pin_array_example_def pin_example_def)
  have "isThruHole_pin pin_example \<longleftrightarrow> inner_diameter pin_example \<noteq> 0"
    by (rule pin_is_thru_hole [OF e, of ?blk]) simp_all
  with e show ?thesis by (simp add: pin_example_def)
qed

end
